theory Spec2Isabelle
  imports Main "HOL-Library.Word" "HOL-Library.AList" "HOL-Library.List_Lexorder"
    "HOL-Library.Char_ord"
    "HOL-Library.Product_Lexorder"
begin

section \<open>Registry (registery.go, package actor)\<close>

subsection \<open>Data\<close>

text \<open>
  Modelled from the spec: the declarations of \<open>StageId\<close>, \<open>ActorName\<close>, \<open>DictionaryKey\<close>
  and \<open>MapSet\<close> are not in the source. A StageId is an unsigned integer, an ActorName a
  string, a DictionaryKey a pair (Dict, Key) of strings ordered lexicographically on the
  pair (the order \<open>sort.Sort\<close> uses), a MapSet a sequence of DictionaryKeys.
  The receiver number is a \<open>uint32\<close> in the source.
\<close>

type_synonym StageId = nat
type_synonym ActorName = string
type_synonym DictionaryKey = "string \<times> string"
type_synonym MapSet = "DictionaryKey list"

definition Dict :: "DictionaryKey \<Rightarrow> string" where
  "Dict dk = fst dk"

definition Key :: "DictionaryKey \<Rightarrow> string" where
  "Key dk = snd dk"

text \<open>\<open>type regVal struct { StageId; RcvrId uint32 }\<close>\<close>

record regVal =
  rv_StageId :: StageId
  rv_RcvrId :: "32 word"

text \<open>
  \<open>ReceiverId\<close> (called \<open>RcvrId\<close>, with the number in field \<open>Id\<close>, in the mapper's part
  of the file).
\<close>

record ReceiverId =
  StageId :: StageId
  ActorName :: ActorName
  RcvrId :: "32 word"

text \<open>\<open>func (this *regVal) Eq(that *regVal) bool\<close>\<close>

definition Eq :: "regVal \<Rightarrow> regVal \<Rightarrow> bool" where
  "Eq this that \<longleftrightarrow> rv_StageId this = rv_StageId that \<and> rv_RcvrId this = rv_RcvrId that"

text \<open>
  The value of a registry node is a string. The model keeps of such a string what
  \<open>json.Unmarshal\<close> makes of it: either the \<open>regVal\<close> it decodes to, or the fact that it does
  not decode (with the text). \<open>marshallRegVal\<close> produces a string that decodes to the value
  it was given.
\<close>

datatype node_value = Encoded regVal | Malformed string

datatype error =
    KeyNotFound string
  | WatchFailed
  | ForeignLock regVal regVal
  | DetachedMigrate ReceiverId
  | RcvrNotFound ReceiverId
  | LocalIdError ReceiverId
  | RcvrExists ReceiverId
  | EnvError string
  | ErrShutdown
  | NetError bool
  | BackoffError int
  | ServerError string

text \<open>
  \<open>glog.Fatalf\<close> logs and then ends the process with \<open>os.Exit\<close>: no deferred call runs and
  nothing is returned. A Go run-time panic (a failed type assertion, a nil dereference)
  ends the process too.
\<close>

datatype fatal =
    CannotUnmarshall string
  | Incosistencies ReceiverId regVal regVal
  | InconsistentShards DictionaryKey MapSet
  | NoLocalReceiver ReceiverId
  | NilHandler
  | Panic string

datatype 'a result = Ret 'a | Fatal fatal

definition unmarshallRegVal :: "node_value \<Rightarrow> error + regVal" where
  "unmarshallRegVal d = (case d of Encoded v \<Rightarrow> Inr v | Malformed t \<Rightarrow> Inl (EnvError t))"

definition unmarshallRegValOrFail :: "node_value \<Rightarrow> regVal result" where
  "unmarshallRegValOrFail d =
     (case unmarshallRegVal d of
        Inl err \<Rightarrow> Fatal (CannotUnmarshall (case d of Malformed t \<Rightarrow> t | Encoded _ \<Rightarrow> []))
      | Inr v \<Rightarrow> Ret v)"

definition marshallRegValOrFail :: "regVal \<Rightarrow> node_value" where
  "marshallRegValOrFail v = Encoded v"

record registery =
  prefix :: string
  ttl :: nat

definition keyFmtStr :: "ActorName \<Rightarrow> string \<Rightarrow> string \<Rightarrow> string" where
  "keyFmtStr a d k = ''/theatre/'' @ a @ ''/'' @ d @ ''/'' @ k"

definition lockFileName :: string where
  "lockFileName = ''__lock__''"

text \<open>\<open>strings.Join(elem, "/")\<close>\<close>

fun Join :: "string list \<Rightarrow> string \<Rightarrow> string" where
  "Join [] sep = []"
| "Join [e] sep = e"
| "Join (e # es) sep = e @ sep @ Join es sep"

definition path :: "registery \<Rightarrow> string list \<Rightarrow> string" where
  "path g elem = prefix g @ ''/'' @ Join elem ''/''"

subsection \<open>The key-value store behind the client\<close>

text \<open>
  Modelled from the spec: the etcd client is an external collaborator. Its contract is
  \<open>Create(key, value, ttl)\<close>, which fails if the key exists, \<open>Get(key)\<close>, which gives the
  value or NotFound, \<open>Delete(key)\<close>, and \<open>Watch(key)\<close>, which blocks until the next change.
  Expiry of a lease needs a clock and is one of the changes other clients can make.
\<close>

type_synonym store = "string \<rightharpoonup> node_value"

definition Create :: "store \<Rightarrow> string \<Rightarrow> node_value \<Rightarrow> nat \<Rightarrow> error + store" where
  "Create s k v t = (if s k = None then Inr (s(k \<mapsto> v)) else Inl (EnvError k))"

definition Get :: "store \<Rightarrow> string \<Rightarrow> error + node_value" where
  "Get s k = (case s k of None \<Rightarrow> Inl (KeyNotFound k) | Some v \<Rightarrow> Inr v)"

definition Delete :: "store \<Rightarrow> string \<Rightarrow> error + store" where
  "Delete s k = (if s k = None then Inl (KeyNotFound k) else Inr (s(k := None)))"

text \<open>
  What a blocked \<open>Watch\<close> comes back with is decided by the other clients of the store:
  a transport error, or a change, after which the store is what the other clients have
  made of it. A list of these results stands for the environment; when it is used up,
  a further \<open>Watch\<close> never returns.
\<close>

datatype watch_result = WatchError | WatchChange store

record world =
  etcd :: store
  watches :: "watch_result list"

subsection \<open>lockActor, unlockActor\<close>

definition regValOf :: "ReceiverId \<Rightarrow> regVal" where
  "regValOf rid = \<lparr>rv_StageId = StageId rid, rv_RcvrId = RcvrId rid\<rparr>"

definition lockKeyOf :: "registery \<Rightarrow> ReceiverId \<Rightarrow> string" where
  "lockKeyOf g rid = path g [ActorName rid, lockFileName]"

text \<open>
  The loop of \<open>lockActor\<close>: one iteration per result of \<open>Watch\<close>. \<open>None\<close>: the call never
  returns. Otherwise the error returned (or none) and the world it leaves.
\<close>

fun lockActor_loop ::
  "registery \<Rightarrow> string \<Rightarrow> node_value \<Rightarrow> watch_result list \<Rightarrow> store \<Rightarrow> (error option \<times> world) option"
where
  "lockActor_loop g k v [] s =
     (case Create s k v (ttl g) of
        Inr s' \<Rightarrow> Some (None, \<lparr>etcd = s', watches = []\<rparr>)
      | Inl _ \<Rightarrow> None)"
| "lockActor_loop g k v (w # ws) s =
     (case Create s k v (ttl g) of
        Inr s' \<Rightarrow> Some (None, \<lparr>etcd = s', watches = w # ws\<rparr>)
      | Inl _ \<Rightarrow>
          (case w of
             WatchError \<Rightarrow> Some (Some WatchFailed, \<lparr>etcd = s, watches = ws\<rparr>)
           | WatchChange s' \<Rightarrow> lockActor_loop g k v ws s'))"

definition lockActor :: "registery \<Rightarrow> ReceiverId \<Rightarrow> world \<Rightarrow> (error option \<times> world) option" where
  "lockActor g rid w =
     lockActor_loop g (lockKeyOf g rid) (marshallRegValOrFail (regValOf rid)) (watches w) (etcd w)"

definition unlockActor :: "registery \<Rightarrow> ReceiverId \<Rightarrow> world \<Rightarrow> (error option \<times> world) result" where
  "unlockActor g rid w =
     (let v = regValOf rid; k = lockKeyOf g rid in
      case Get (etcd w) k of
        Inl err \<Rightarrow> Ret (Some err, w)
      | Inr d \<Rightarrow>
          (case unmarshallRegValOrFail d of
             Fatal f \<Rightarrow> Fatal f
           | Ret tempV \<Rightarrow>
               if \<not> Eq v tempV then Ret (Some (ForeignLock v tempV), w)
               else (case Delete (etcd w) k of
                       Inl err \<Rightarrow> Ret (Some err, w)
                     | Inr s' \<Rightarrow> Ret (None, w\<lparr>etcd := s'\<rparr>))))"

subsection \<open>storeOrGet\<close>

definition keyOf :: "ReceiverId \<Rightarrow> DictionaryKey \<Rightarrow> string" where
  "keyOf rid dk = keyFmtStr (ActorName rid) (Dict dk) (Key dk)"

text \<open>
  The first loop: the state is \<open>v\<close>, \<open>mv\<close> and \<open>validate\<close>. A failed \<open>Get\<close> skips the key.
\<close>

fun readKeys ::
  "ReceiverId \<Rightarrow> store \<Rightarrow> MapSet \<Rightarrow> regVal \<Rightarrow> node_value \<Rightarrow> bool \<Rightarrow> (regVal \<times> node_value) result"
where
  "readKeys rid s [] v mv validate = Ret (v, mv)"
| "readKeys rid s (dk # ms) v mv validate =
     (case Get s (keyOf rid dk) of
        Inl err \<Rightarrow> readKeys rid s ms v mv validate
      | Inr d \<Rightarrow>
          (case unmarshallRegValOrFail d of
             Fatal f \<Rightarrow> Fatal f
           | Ret resV \<Rightarrow>
               if Eq resV v then readKeys rid s ms v mv validate
               else if validate then Fatal (Incosistencies rid v resV)
               else readKeys rid s ms resV d True))"

text \<open>The second loop: \<open>Create\<close> on every key, its error dropped.\<close>

fun createKeys :: "registery \<Rightarrow> ReceiverId \<Rightarrow> node_value \<Rightarrow> MapSet \<Rightarrow> store \<Rightarrow> store" where
  "createKeys g rid mv [] s = s"
| "createKeys g rid mv (dk # ms) s =
     createKeys g rid mv ms
       (case Create s (keyOf rid dk) mv (ttl g) of Inl _ \<Rightarrow> s | Inr s' \<Rightarrow> s')"

text \<open>
  \<open>storeOrGet\<close>: the result of \<open>lockActor\<close> is dropped; \<open>sort.Sort(ms)\<close> puts the keys in
  order; the deferred \<open>unlockActor\<close> runs when the function returns, its result dropped,
  and does not run when \<open>glog.Fatalf\<close> ends the process. \<open>None\<close>: \<open>lockActor\<close> never returns.
\<close>

definition storeOrGet :: "registery \<Rightarrow> ReceiverId \<Rightarrow> MapSet \<Rightarrow> world \<Rightarrow> (regVal result \<times> world) option" where
  "storeOrGet g rid ms w =
     (case lockActor g rid w of
        None \<Rightarrow> None
      | Some (lerr, w1) \<Rightarrow>
          (let ms' = sort ms;
               v = regValOf rid;
               mv = marshallRegValOrFail v
           in case readKeys rid (etcd w1) ms' v mv False of
                Fatal f \<Rightarrow> Some (Fatal f, w1)
              | Ret (v', mv') \<Rightarrow>
                  (let w2 = w1\<lparr>etcd := createKeys g rid mv' ms' (etcd w1)\<rparr> in
                   case unlockActor g rid w2 of
                     Fatal f \<Rightarrow> Some (Fatal f, w2)
                   | Ret (uerr, w3) \<Rightarrow> Some (Ret v', w3))))"

section \<open>Mapper (package actor)\<close>

subsection \<open>Data\<close>

text \<open>
  A receiver is used through a pointer (\<open>*localRcvr\<close>, \<open>*proxyRcvr\<close>, \<open>*detachedRcvr\<close> behind
  the interface \<open>receiver\<close>), and two receivers are compared as pointers. The fields of a
  receiver are set before it is stored and not changed after, so the model keeps the
  object with \<open>ref\<close>, the identity its allocation gave it: two values with the same \<open>ref\<close>
  are one object. \<open>dataCh\<close> names the channel, which a proxy made from a local receiver
  shares with it.
\<close>

datatype rcvrKind = LocalRcvr | ProxyRcvr | DetachedRcvr

record rcvr =
  ref :: nat
  kind :: rcvrKind
  rId :: ReceiverId
  dataCh :: nat

text \<open>
  Modelled from the spec: a message is unicast (it names a receiver) or keyed; the
  handler maps a keyed message to its MapSet; the handler may be \<open>nil\<close>.
\<close>

record message =
  isUnicast :: bool
  msg_To :: ReceiverId
  payload :: string

record msgAndHandler =
  mh_msg :: message
  handler :: "(message \<Rightarrow> MapSet) option"

text \<open>
  The mapper with what it reads of its context: the stage's ID, the actor's name,
  whether the stage is isolated, the registry and the store behind it. \<open>keyToRcvrs\<close> is a
  Go map; it is kept as a list of bindings with distinct keys, the order being the one
  an iteration visits them in. \<open>queues\<close> holds the content of the data channels, \<open>nrefs\<close>
  counts the objects allocated.
\<close>

record mapper =
  stageId :: StageId
  actorName :: ActorName
  isIsol :: bool
  reg :: registery
  cluster :: world
  lastRId :: "32 word"
  idToRcvrs :: "ReceiverId \<rightharpoonup> rcvr"
  keyToRcvrs :: "(DictionaryKey \<times> rcvr) list"
  queues :: "nat \<rightharpoonup> msgAndHandler list"
  nrefs :: nat

definition detachedRcvrId :: "32 word" where
  "detachedRcvrId = 0"

text \<open>Modelled from the spec: the detached ID is the one with receiver number 0.\<close>

definition isDetachedId :: "ReceiverId \<Rightarrow> bool" where
  "isDetachedId rid = (RcvrId rid = detachedRcvrId)"

definition receiverByKey :: "mapper \<Rightarrow> DictionaryKey \<Rightarrow> rcvr option" where
  "receiverByKey mapr dk = map_of (keyToRcvrs mapr) dk"

definition receiverById :: "mapper \<Rightarrow> ReceiverId \<Rightarrow> rcvr option" where
  "receiverById mapr rid = idToRcvrs mapr rid"

definition setReceiver :: "mapper \<Rightarrow> DictionaryKey \<Rightarrow> rcvr \<Rightarrow> mapper" where
  "setReceiver mapr dk r = mapr\<lparr>keyToRcvrs := AList.update dk r (keyToRcvrs mapr)\<rparr>"

definition isLocalRcvr :: "mapper \<Rightarrow> ReceiverId \<Rightarrow> bool" where
  "isLocalRcvr mapr rid = (stageId mapr = StageId rid)"

subsection \<open>Placement\<close>

definition nextRcvrId :: "mapper \<Rightarrow> ReceiverId \<times> mapper" where
  "nextRcvrId mapr =
     (let m = mapr\<lparr>lastRId := lastRId mapr + 1\<rparr>
      in (\<lparr>StageId = stageId m, ActorName = actorName m, RcvrId = lastRId m\<rparr>, m))"

text \<open>
  Modelled from the spec: \<open>registery.set\<close> is not in the source; it writes the caller's
  RegVal to every key unconditionally and returns the caller's RegVal.
\<close>

fun writeKeys :: "ReceiverId \<Rightarrow> node_value \<Rightarrow> MapSet \<Rightarrow> store \<Rightarrow> store" where
  "writeKeys rid mv [] s = s"
| "writeKeys rid mv (dk # ms) s = writeKeys rid mv ms (s(keyOf rid dk \<mapsto> mv))"

definition registery_set :: "registery \<Rightarrow> ReceiverId \<Rightarrow> MapSet \<Rightarrow> world \<Rightarrow> regVal \<times> world" where
  "registery_set g rid ms w =
     (let v = regValOf rid
      in (v, w\<lparr>etcd := writeKeys rid (marshallRegValOrFail v) ms (etcd w)\<rparr>))"

text \<open>The call on the registry in \<open>lock\<close>: \<open>set\<close> if \<open>force\<close>, \<open>storeOrGet\<close> otherwise.\<close>

definition registryClaim ::
  "mapper \<Rightarrow> ReceiverId \<Rightarrow> MapSet \<Rightarrow> bool \<Rightarrow> (regVal result \<times> world) option"
where
  "registryClaim mapr rid mapSet force =
     (if force
      then (case registery_set (reg mapr) rid mapSet (cluster mapr) of (v, w) \<Rightarrow> Some (Ret v, w))
      else storeOrGet (reg mapr) rid mapSet (cluster mapr))"

text \<open>
  \<open>lock\<close>. \<open>None\<close>: the registry call never returns; \<open>Fatal\<close>: it ends the process.
\<close>

definition lock :: "mapper \<Rightarrow> MapSet \<Rightarrow> bool \<Rightarrow> (ReceiverId \<times> mapper) result option" where
  "lock mapr mapSet force =
     (case nextRcvrId mapr of
        (rid, m) \<Rightarrow>
          if isIsol m then Some (Ret (rid, m))
          else
            (case registryClaim m rid mapSet force of
               None \<Rightarrow> None
             | Some (Fatal f, w) \<Rightarrow> Some (Fatal f)
             | Some (Ret v, w) \<Rightarrow>
                 (let m1 = m\<lparr>cluster := w\<rparr> in
                  if rv_StageId v = StageId rid \<and> rv_RcvrId v = RcvrId rid
                  then Some (Ret (rid, m1))
                  else
                    (let m2 = m1\<lparr>lastRId := lastRId m1 - 1\<rparr>;
                         rid1 = rid\<lparr>StageId := rv_StageId v\<rparr>;
                         rid2 = rid1\<lparr>RcvrId := rv_RcvrId v\<rparr>
                     in Some (Ret (rid2, m2))))))"

definition lockKey :: "mapper \<Rightarrow> DictionaryKey \<Rightarrow> rcvr \<Rightarrow> (bool \<times> mapper) result option" where
  "lockKey mapr dk r =
     (let m = setReceiver mapr dk r in
      if isIsol m then Some (Ret (True, m))
      else
        (case storeOrGet (reg m) (rId r) [dk] (cluster m) of
           None \<Rightarrow> None
         | Some (Fatal f, w) \<Rightarrow> Some (Fatal f)
         | Some (Ret v, w) \<Rightarrow> Some (Ret (True, m\<lparr>cluster := w\<rparr>))))"

subsection \<open>Receivers\<close>

definition defaultLocalRcvr :: "mapper \<Rightarrow> ReceiverId \<Rightarrow> rcvr" where
  "defaultLocalRcvr mapr rid = \<lparr>ref = nrefs mapr, kind = LocalRcvr, rId = rid, dataCh = nrefs mapr\<rparr>"

text \<open>\<open>findOrCreateReceiver\<close>; the start of the receiver's task is outside the model.\<close>

definition findOrCreateReceiver :: "mapper \<Rightarrow> ReceiverId \<Rightarrow> rcvr \<times> mapper" where
  "findOrCreateReceiver mapr rid =
     (case receiverById mapr rid of
        Some r \<Rightarrow> (r, mapr)
      | None \<Rightarrow>
          (let l = defaultLocalRcvr mapr rid;
               r = (if isLocalRcvr mapr rid then l else l\<lparr>kind := ProxyRcvr\<rparr>)
           in (r, mapr\<lparr>idToRcvrs := (idToRcvrs mapr)(rid \<mapsto> r),
                       queues := (queues mapr)(dataCh l \<mapsto> []),
                       nrefs := nrefs mapr + 1\<rparr>)))"

text \<open>The loop \<open>for _, dictKey := range mapSet { mapr.setReceiver(dictKey, rcvr) }\<close>.\<close>

fun bindAll :: "MapSet \<Rightarrow> rcvr \<Rightarrow> mapper \<Rightarrow> mapper" where
  "bindAll [] r mapr = mapr"
| "bindAll (dk # ms) r mapr = bindAll ms r (setReceiver mapr dk r)"

text \<open>
  \<open>newReceiverForMapSet\<close>. (\<open>storeOrGet\<close> sorts the slice it is given in place, so the loop
  may visit the keys in another order than the handler gave them; the keys are the same.)
\<close>

definition newReceiverForMapSet :: "mapper \<Rightarrow> MapSet \<Rightarrow> (rcvr \<times> mapper) result option" where
  "newReceiverForMapSet mapr mapSet =
     (case lock mapr mapSet False of
        None \<Rightarrow> None
      | Some (Fatal f) \<Rightarrow> Some (Fatal f)
      | Some (Ret (rcvrId, m1)) \<Rightarrow>
          (case findOrCreateReceiver m1 rcvrId of
             (r, m2) \<Rightarrow> Some (Ret (r, bindAll mapSet r m2))))"

fun anyReceiver :: "mapper \<Rightarrow> MapSet \<Rightarrow> rcvr option" where
  "anyReceiver mapr [] = None"
| "anyReceiver mapr (dk # ms) =
     (case receiverByKey mapr dk of
        Some r \<Rightarrow> Some r
      | None \<Rightarrow> anyReceiver mapr ms)"

text \<open>The loop of \<open>syncReceivers\<close>; \<open>all\<close> is the whole MapSet, for the message.\<close>

fun syncLoop :: "MapSet \<Rightarrow> rcvr \<Rightarrow> MapSet \<Rightarrow> mapper \<Rightarrow> mapper result option" where
  "syncLoop all r [] mapr = Some (Ret mapr)"
| "syncLoop all r (dk # ms) mapr =
     (case receiverByKey mapr dk of
        None \<Rightarrow>
          (case lockKey mapr dk r of
             None \<Rightarrow> None
           | Some (Fatal f) \<Rightarrow> Some (Fatal f)
           | Some (Ret (b, m)) \<Rightarrow> syncLoop all r ms m)
      | Some dkRecvr \<Rightarrow>
          if dkRecvr = r then syncLoop all r ms mapr
          else Some (Fatal (InconsistentShards dk all)))"

definition syncReceivers :: "mapper \<Rightarrow> MapSet \<Rightarrow> rcvr \<Rightarrow> mapper result option" where
  "syncReceivers mapr ms r = syncLoop ms r ms mapr"

text \<open>
  Modelled from the spec: \<open>enqueMsg\<close> is a method of the receivers, which are not in the
  source; it puts the message at the end of the receiver's data queue.
\<close>

definition enqueMsg :: "mapper \<Rightarrow> rcvr \<Rightarrow> msgAndHandler \<Rightarrow> mapper" where
  "enqueMsg mapr r mh =
     mapr\<lparr>queues := (queues mapr)(dataCh r \<mapsto>
              (case queues mapr (dataCh r) of None \<Rightarrow> [] | Some q \<Rightarrow> q) @ [mh])\<rparr>"

text \<open>
  \<open>handleMsg\<close>. Calling \<open>Map\<close> on a \<open>nil\<close> handler is a run-time panic.
\<close>

definition handleMsg :: "mapper \<Rightarrow> msgAndHandler \<Rightarrow> mapper result option" where
  "handleMsg mapr mh =
     (if isUnicast (mh_msg mh) then
        (case (case receiverById mapr (msg_To (mh_msg mh)) of
                 Some r \<Rightarrow> Ret (r, mapr)
               | None \<Rightarrow>
                   if isLocalRcvr mapr (msg_To (mh_msg mh))
                   then Fatal (NoLocalReceiver (msg_To (mh_msg mh)))
                   else Ret (findOrCreateReceiver mapr (msg_To (mh_msg mh)))) of
           Fatal f \<Rightarrow> Some (Fatal f)
         | Ret (r, m) \<Rightarrow>
             if handler mh = None \<and> RcvrId (msg_To (mh_msg mh)) \<noteq> detachedRcvrId
             then Some (Fatal NilHandler)
             else Some (Ret (enqueMsg m r mh)))
      else
        (case handler mh of
           None \<Rightarrow> Some (Fatal (Panic ''nil handler''))
         | Some h \<Rightarrow>
             (let mapSet = h (mh_msg mh) in
              case anyReceiver mapr mapSet of
                None \<Rightarrow>
                  (case newReceiverForMapSet mapr mapSet of
                     None \<Rightarrow> None
                   | Some (Fatal f) \<Rightarrow> Some (Fatal f)
                   | Some (Ret (r, m)) \<Rightarrow> Some (Ret (enqueMsg m r mh)))
              | Some r \<Rightarrow>
                  (case syncReceivers mapr mapSet r of
                     None \<Rightarrow> None
                   | Some (Fatal f) \<Rightarrow> Some (Fatal f)
                   | Some (Ret m) \<Rightarrow> Some (Ret (enqueMsg m r mh))))))"

subsection \<open>Migration\<close>

definition proxyFromLocal :: "mapper \<Rightarrow> ReceiverId \<Rightarrow> rcvr \<Rightarrow> error + rcvr \<times> mapper" where
  "proxyFromLocal mapr rid lRcvr =
     (if isLocalRcvr mapr rid then Inl (LocalIdError rid)
      else
        (case receiverById mapr rid of
           Some r \<Rightarrow> Inl (RcvrExists (rId r))
         | None \<Rightarrow>
             (let r = lRcvr\<lparr>ref := nrefs mapr, kind := ProxyRcvr, rId := rid\<rparr>;
                  m1 = mapr\<lparr>idToRcvrs := (idToRcvrs mapr)(rid \<mapsto> r)\<rparr>;
                  m2 = m1\<lparr>idToRcvrs := (idToRcvrs m1)(rId lRcvr \<mapsto> r)\<rparr>
              in Inr (r, m2\<lparr>nrefs := nrefs m2 + 1\<rparr>))))"

definition mapSetOfRcvr :: "mapper \<Rightarrow> ReceiverId \<Rightarrow> MapSet" where
  "mapSetOfRcvr mapr rid = map fst (filter (\<lambda>kr. rId (snd kr) = rid) (keyToRcvrs mapr))"

text \<open>
  What the other parties of a migration answer: the old receiver to the stop command,
  \<open>dialStage\<close>, the encoder for the handshake and for the command, and the decoder for the
  new receiver's ID.
\<close>

record migration =
  stopAck :: "error option"
  dial :: "error option"
  encHandshake :: "error option"
  encCommand :: "error option"
  decoded :: "error + ReceiverId"

record asyncResult =
  ar_val :: "ReceiverId option"
  ar_err :: "error option"

definition errResult :: "error \<Rightarrow> asyncResult" where
  "errResult err = \<lparr>ar_val = None, ar_err = Some err\<rparr>"

text \<open>
  \<open>migrate\<close>: the values sent on \<open>resCh\<close>, in order, and the mapper. The type assertion
  \<open>oldRcvr.(*localRcvr)\<close> panics on a receiver that is not local.
\<close>

definition migrate ::
  "mapper \<Rightarrow> ReceiverId \<Rightarrow> StageId \<Rightarrow> migration \<Rightarrow> (asyncResult list \<times> mapper) result"
where
  "migrate mapr rcvrId to env =
     (if isDetachedId rcvrId then Ret ([errResult (DetachedMigrate rcvrId)], mapr)
      else
        (case receiverById mapr rcvrId of
           None \<Rightarrow> Ret ([errResult (RcvrNotFound rcvrId)], mapr)
         | Some oldRcvr \<Rightarrow>
             (case stopAck env of
                Some err \<Rightarrow> Ret ([errResult err], mapr)
              | None \<Rightarrow>
             (case dial env of
                Some err \<Rightarrow> Ret ([errResult err], mapr)
              | None \<Rightarrow>
             (case encHandshake env of
                Some err \<Rightarrow> Ret ([errResult err], mapr)
              | None \<Rightarrow>
             (case encCommand env of
                Some err \<Rightarrow> Ret ([errResult err], mapr)
              | None \<Rightarrow>
             (case decoded env of
                Inl err \<Rightarrow> Ret ([errResult err], mapr)
              | Inr rid \<Rightarrow>
                  if kind oldRcvr \<noteq> LocalRcvr then Fatal (Panic ''interface conversion'')
                  else
                    (case proxyFromLocal mapr rid oldRcvr of
                       Inl err \<Rightarrow> Ret ([errResult err], mapr)
                     | Inr (newRcvr, m1) \<Rightarrow>
                         (let mapSet = mapSetOfRcvr m1 (rId oldRcvr);
                              m2 = m1\<lparr>cluster := snd (registery_set (reg m1) (rId newRcvr) mapSet (cluster m1))\<rparr>
                          in Ret ([], bindAll mapSet newRcvr m2))))))))))"

section \<open>RPC client pool and server (package beehive)\<close>

subsection \<open>Backoff\<close>

text \<open>
  A \<open>time.Duration\<close> is an \<open>int64\<close> count of nanoseconds; a \<open>time.Time\<close> is modelled by the
  nanoseconds since the zero time, which is the value of a fresh \<open>dialTry.next\<close>.
\<close>

definition Millisecond :: int where
  "Millisecond = 1000000"

definition Second :: int where
  "Second = 1000000000"

definition maxWait :: int where
  "maxWait = 8 * Second"

definition minWait :: int where
  "minWait = 50 * Millisecond"

text \<open>The wrap-around of \<open>int64\<close> arithmetic.\<close>

definition wrap64 :: "int \<Rightarrow> int" where
  "wrap64 x = (x + 2 ^ 63) mod 2 ^ 64 - 2 ^ 63"


fun Temporary :: "error \<Rightarrow> bool" where
  "Temporary (BackoffError u) = True"
| "Temporary (NetError t) = t"
| "Temporary _ = False"

fun Timeout :: "error \<Rightarrow> bool" where
  "Timeout (BackoffError u) = True"
| "Timeout _ = False"

fun isBackoffError :: "error \<Rightarrow> bool" where
  "isBackoffError (BackoffError u) = True"
| "isBackoffError _ = False"

text \<open>\<open>type dialTry struct { next time.Time; wait time.Duration; tries uint64 }\<close>\<close>

record dialTry =
  nextT :: int
  wait :: int
  tries :: "64 word"

text \<open>
  \<open>rpcClient\<close>: the address and the four streams. A pointer to a client is compared by
  \<open>ptr\<close>, the identity the allocation gave it.
\<close>

record rpcClient =
  ptr :: nat
  addr :: string
  cmd :: nat
  msg :: nat
  raft :: nat
  prio :: nat

text \<open>
  The pool, with what it reads of its hive: the known peers (\<open>hive.registry.hive\<close>) and
  the hive of each bee (\<open>hive.bee\<close>); \<open>allocs\<close> counts the clients allocated.
\<close>

record rpcClientPool =
  hiveClients :: "nat \<rightharpoonup> rpcClient"
  beeClients :: "nat \<rightharpoonup> rpcClient"
  retries :: "nat \<rightharpoonup> dialTry"
  peers :: "nat \<rightharpoonup> string"
  beeHives :: "nat \<rightharpoonup> nat"
  allocs :: nat

text \<open>
  What the network does is given from outside: the results of the four calls of
  \<open>net.DialTimeout\<close> in \<open>newRPCClient\<close> (the connection or the error), and the reading of the
  clock.
\<close>

record dials =
  cmdConn :: "error + nat"
  raftConn :: "error + nat"
  prioConn :: "error + nat"
  msgConn :: "error + nat"

record attempt =
  now :: int
  net :: dials

definition newRPCClient :: "nat \<Rightarrow> string \<Rightarrow> dials \<Rightarrow> error + rpcClient" where
  "newRPCClient a ad d =
     (case cmdConn d of
        Inl err \<Rightarrow> Inl err
      | Inr c \<Rightarrow>
          (let r = (case raftConn d of Inl _ \<Rightarrow> c | Inr x \<Rightarrow> x);
               p = (case prioConn d of Inl _ \<Rightarrow> r | Inr x \<Rightarrow> x);
               m = (case msgConn d of Inl _ \<Rightarrow> c | Inr x \<Rightarrow> x)
           in Inr \<lparr>ptr = a, addr = ad, cmd = c, msg = m, raft = r, prio = p\<rparr>))"

definition lookupHive :: "rpcClientPool \<Rightarrow> nat \<Rightarrow> rpcClient option" where
  "lookupHive p hive = hiveClients p hive"

definition setHive :: "rpcClientPool \<Rightarrow> nat \<Rightarrow> rpcClient \<Rightarrow> rpcClientPool" where
  "setHive p hive client = p\<lparr>hiveClients := (hiveClients p)(hive \<mapsto> client)\<rparr>"

definition deleteHive :: "rpcClientPool \<Rightarrow> nat \<Rightarrow> rpcClientPool" where
  "deleteHive p hive = p\<lparr>hiveClients := (hiveClients p)(hive := None)\<rparr>"

definition lookupRetry :: "rpcClientPool \<Rightarrow> nat \<Rightarrow> dialTry \<times> rpcClientPool" where
  "lookupRetry p hive =
     (case retries p hive of
        Some t \<Rightarrow> (t, p)
      | None \<Rightarrow>
          (let t = \<lparr>nextT = 0, wait = minWait, tries = 0\<rparr>
           in (t, p\<lparr>retries := (retries p)(hive \<mapsto> t)\<rparr>)))"

definition setRetry :: "rpcClientPool \<Rightarrow> nat \<Rightarrow> dialTry \<Rightarrow> rpcClientPool" where
  "setRetry p hive t = p\<lparr>retries := (retries p)(hive \<mapsto> t)\<rparr>"

text \<open>
  \<open>newClient\<close>: the result, the pool, and the addresses \<open>newRPCClient\<close> was called with.
\<close>

definition newClient ::
  "rpcClientPool \<Rightarrow> nat \<Rightarrow> attempt \<Rightarrow> (error + rpcClient) \<times> rpcClientPool \<times> string list"
where
  "newClient p0 hive at =
     (let (t, p) = lookupRetry p0 hive in
      case lookupHive p hive of
        Some client \<Rightarrow> (Inr client, p, [])
      | None \<Rightarrow>
          if \<not> (now at > nextT t) then (Inl (BackoffError (nextT t)), p, [])
          else
            (case peers p hive of
               None \<Rightarrow> (Inl (EnvError ''no such hive''), p, [])
             | Some a \<Rightarrow>
                 (case newRPCClient (allocs p) a (net at) of
                    Inl err \<Rightarrow>
                      (let t1 = t\<lparr>tries := tries t + 1\<rparr>;
                           t2 = t1\<lparr>wait := wrap64 (wait t1 * 2)\<rparr>;
                           t3 = (if wait t2 > maxWait then t2\<lparr>wait := maxWait\<rparr> else t2);
                           t4 = t3\<lparr>nextT := now at + wait t3\<rparr>
                       in (Inl err, setRetry p hive t4, [a]))
                  | Inr client \<Rightarrow>
                      (let t1 = t\<lparr>wait := 1 * Second\<rparr>;
                           t2 = t1\<lparr>nextT := now at\<rparr>
                       in (Inr client,
                           setHive (setRetry (p\<lparr>allocs := allocs p + 1\<rparr>) hive t2) hive client,
                           [a])))))"

definition samePtr :: "rpcClient option \<Rightarrow> rpcClient option \<Rightarrow> bool" where
  "samePtr a b = (map_option ptr a = map_option ptr b)"

definition resetHiveClient ::
  "rpcClientPool \<Rightarrow> nat \<Rightarrow> rpcClient option \<Rightarrow> attempt
     \<Rightarrow> (error + rpcClient) \<times> rpcClientPool \<times> string list"
where
  "resetHiveClient p hive prev at =
     (case lookupHive p hive of
        Some client \<Rightarrow>
          if \<not> samePtr (Some client) prev then (Inr client, p, [])
          else (case newClient (deleteHive p hive) hive at of
                  (Inl err, p', log) \<Rightarrow> (Inl err, p', log)
                | (Inr c, p', log) \<Rightarrow> (Inr c, setHive p' hive c, log))
      | None \<Rightarrow>
          (case newClient (deleteHive p hive) hive at of
             (Inl err, p', log) \<Rightarrow> (Inl err, p', log)
           | (Inr c, p', log) \<Rightarrow> (Inr c, setHive p' hive c, log)))"



text \<open>
  A run of consecutive failed dials to one peer: each call of \<open>newClient\<close> reaches
  \<open>newRPCClient\<close> and gets its error. \<open>None\<close> if a call of the run did not do so.
\<close>

fun failedDials :: "rpcClientPool \<Rightarrow> nat \<Rightarrow> attempt list \<Rightarrow> rpcClientPool option" where
  "failedDials p hive [] = Some p"
| "failedDials p hive (at # ats) =
     (case newClient p hive at of
        (Inl err, p', [a]) \<Rightarrow> if cmdConn (net at) = Inl err then failedDials p' hive ats else None
      | _ \<Rightarrow> None)"

subsection \<open>Raft batches and the reporter\<close>

text \<open>
  Modelled from the spec: a batch has a destination, a priority and its messages by
  group (a Go map: the list gives the groups in the order the iteration visits them);
  a message carries a snapshot, which is empty or not. The reporter is the consensus
  module's; the model records the calls made on it.
\<close>

datatype priority = Normal | High













subsection \<open>ProcessCmd\<close>

text \<open>
  Modelled from the spec: a command names a hive, an app and a bee (\<open>Nil\<close>, an empty name:
  none); the server's hive has an ID and apps, each with the bees of its qee. A result
  carries data or an error. The control loops are outside the file: \<open>reply\<close> gives, for a
  control channel and a command, the result the loop writes to the command's channel, or
  \<open>None\<close> if it never writes one.
\<close>

definition Nil :: nat where
  "Nil = 0"

record cmd =
  Hive :: nat
  App :: string
  Bee :: nat
  Data :: string

record cmdResult =
  res_Data :: "string option"
  res_Err :: "error option"

record hive =
  ID :: nat
  apps :: "string \<rightharpoonup> nat list"

datatype ctrlCh = HiveCtrl | QeeCtrl string | BeeCtrl string nat

text \<open>The first loop's body: what the channel of the command will hold.\<close>

definition dispatch :: "hive \<Rightarrow> (ctrlCh \<Rightarrow> cmd \<Rightarrow> cmdResult option) \<Rightarrow> cmd \<Rightarrow> cmdResult option" where
  "dispatch h reply c =
     (if Hive c \<noteq> Nil \<and> Hive c \<noteq> ID h
      then Some \<lparr>res_Data = None, res_Err = Some (ServerError ''receives command to another hive'')\<rparr>
      else if App c = []
      then reply HiveCtrl c
      else (case apps h (App c) of
              None \<Rightarrow> Some \<lparr>res_Data = None, res_Err = Some (ServerError ''cannot find app'')\<rparr>
            | Some bees \<Rightarrow>
                if Bee c = Nil then reply (QeeCtrl (App c)) c
                else if Bee c \<notin> set bees
                then Some \<lparr>res_Data = None, res_Err = Some (ServerError ''cannot find bee'')\<rparr>
                else reply (BeeCtrl (App c) (Bee c)) c))"

text \<open>
  The second loop, over the channels with their index: the \<open>select\<close> waits for the
  channel's result (for ever, logging every 10 s, if none comes), stores it at the index,
  and executes \<open>return nil\<close>.
\<close>

fun collect :: "cmdResult list \<Rightarrow> nat \<Rightarrow> cmdResult option list \<Rightarrow> cmdResult list option" where
  "collect res i [] = Some res"
| "collect res i (ch # chs) =
     (case ch of
        None \<Rightarrow> None
      | Some r \<Rightarrow> Some (res[i := r]))"

definition zeroResult :: cmdResult where
  "zeroResult = \<lparr>res_Data = None, res_Err = None\<rparr>"

text \<open>
  \<open>ProcessCmd\<close>: \<open>None\<close> if it never returns; otherwise it returns \<open>nil\<close>, and the value is the
  result slice.
\<close>

definition ProcessCmd ::
  "hive \<Rightarrow> (ctrlCh \<Rightarrow> cmd \<Rightarrow> cmdResult option) \<Rightarrow> cmd list \<Rightarrow> cmdResult list \<Rightarrow> cmdResult list option"
where
  "ProcessCmd h reply cmds res =
     (if length cmds = 0 then Some res
      else collect (replicate (length cmds) zeroResult) 0 (map (dispatch h reply) cmds))"

section \<open>Concrete registries\<close>

text \<open>
  A registry with one actor \<open>X\<close>, a caller (stage 1, receiver 1), two other owners, and
  stores in which the keys \<open>(d, a)\<close> and \<open>(d, c)\<close> are held in different ways.
\<close>

definition g0 :: registery where
  "g0 = \<lparr>prefix = ''/theatre'', ttl = 60\<rparr>"

definition rid0 :: ReceiverId where
  "rid0 = \<lparr>StageId = 1, ActorName = ''X'', RcvrId = 1\<rparr>"

definition own0 :: regVal where
  "own0 = \<lparr>rv_StageId = 1, rv_RcvrId = 1\<rparr>"

definition owner2 :: regVal where
  "owner2 = \<lparr>rv_StageId = 2, rv_RcvrId = 7\<rparr>"

definition owner3 :: regVal where
  "owner3 = \<lparr>rv_StageId = 3, rv_RcvrId = 9\<rparr>"

definition ms_ca :: MapSet where
  "ms_ca = [(''d'', ''c''), (''d'', ''a'')]"

definition quiet :: "store \<Rightarrow> world" where
  "quiet s = \<lparr>etcd = s, watches = []\<rparr>"

definition st_two_foreign :: store where
  "st_two_foreign = [''/theatre/X/d/a'' \<mapsto> Encoded owner2, ''/theatre/X/d/c'' \<mapsto> Encoded owner3]"

definition st_foreign_own :: store where
  "st_foreign_own = [''/theatre/X/d/a'' \<mapsto> Encoded owner2, ''/theatre/X/d/c'' \<mapsto> Encoded own0]"

definition st_own_foreign :: store where
  "st_own_foreign = [''/theatre/X/d/a'' \<mapsto> Encoded own0, ''/theatre/X/d/c'' \<mapsto> Encoded owner2]"

definition st_one_foreign :: store where
  "st_one_foreign = [''/theatre/X/d/a'' \<mapsto> Encoded owner2]"

definition st_locked :: store where
  "st_locked = [''/theatre/X/__lock__'' \<mapsto> Encoded owner2]"

definition w_contended :: world where
  "w_contended = \<lparr>etcd = st_locked, watches = [WatchError]\<rparr>"

text \<open>Who holds the actor's lock in a world.\<close>

definition lockHolder :: "registery \<Rightarrow> ReceiverId \<Rightarrow> world \<Rightarrow> node_value option" where
  "lockHolder g rid w = etcd w (lockKeyOf g rid)"

section \<open>Concrete pools, batches and commands\<close>

text \<open>
  A pool that knows peer 2, a network that refuses and one that accepts connections, the
  pool after two refused dials (at 1 ms and at 200 ms), a batch of two groups to peer 2,
  and two commands for other hives sent to hive 1.
\<close>

definition pool0 :: rpcClientPool where
  "pool0 = \<lparr>hiveClients = Map.empty, beeClients = Map.empty, retries = Map.empty,
             peers = [2 \<mapsto> ''10.0.0.2:7767''], beeHives = Map.empty, allocs = 0\<rparr>"

definition refused :: dials where
  "refused = \<lparr>cmdConn = Inl (NetError False), raftConn = Inl (NetError False),
               prioConn = Inl (NetError False), msgConn = Inl (NetError False)\<rparr>"

definition accepted :: dials where
  "accepted = \<lparr>cmdConn = Inr 1, raftConn = Inr 2, prioConn = Inr 3, msgConn = Inr 4\<rparr>"

definition pool_failed2 :: rpcClientPool where
  "pool_failed2 = pool0\<lparr>retries := [2 \<mapsto> \<lparr>nextT = 400 * Millisecond, wait = 200 * Millisecond, tries = 2\<rparr>]\<rparr>"


definition early :: attempt where
  "early = \<lparr>now = 300 * Millisecond, net = accepted\<rparr>"


definition hive1 :: hive where
  "hive1 = \<lparr>ID = 1, apps = Map.empty\<rparr>"

definition no_reply :: "ctrlCh \<Rightarrow> cmd \<Rightarrow> cmdResult option" where
  "no_reply ch c = None"

definition cmds2 :: "cmd list" where
  "cmds2 = [\<lparr>Hive = 2, App = [], Bee = 0, Data = ''a''\<rparr>, \<lparr>Hive = 3, App = [], Bee = 0, Data = ''b''\<rparr>]"

definition wrongHive :: cmdResult where
  "wrongHive = \<lparr>res_Data = None, res_Err = Some (ServerError ''receives command to another hive'')\<rparr>"

section \<open>Concrete mappers\<close>

text \<open>
  A mapper of actor \<open>X\<close> on stage 1 with two local receivers, \<open>(d, b)\<close> bound to the first and
  \<open>(d, c)\<close> to the second; the same mapper on a stage that is not isolated; messages whose
  handlers give fixed MapSets; the answers of a migration to stage 2.
\<close>

definition ridA :: ReceiverId where
  "ridA = \<lparr>StageId = 1, ActorName = ''X'', RcvrId = 1\<rparr>"

definition ridB :: ReceiverId where
  "ridB = \<lparr>StageId = 1, ActorName = ''X'', RcvrId = 2\<rparr>"

definition rcvrA :: rcvr where
  "rcvrA = \<lparr>ref = 0, kind = LocalRcvr, rId = ridA, dataCh = 0\<rparr>"

definition rcvrB :: rcvr where
  "rcvrB = \<lparr>ref = 1, kind = LocalRcvr, rId = ridB, dataCh = 1\<rparr>"

definition mapr_iso :: mapper where
  "mapr_iso = \<lparr>stageId = 1, actorName = ''X'', isIsol = True, reg = g0,
      cluster = quiet Map.empty, lastRId = 2,
      idToRcvrs = [ridA \<mapsto> rcvrA, ridB \<mapsto> rcvrB],
      keyToRcvrs = [((''d'', ''b''), rcvrA), ((''d'', ''c''), rcvrB)],
      queues = [0 \<mapsto> [], 1 \<mapsto> []], nrefs = 2\<rparr>"

definition mapr_blocked :: mapper where
  "mapr_blocked = mapr_iso\<lparr>isIsol := False, cluster := quiet st_locked\<rparr>"

definition map_abc :: "message \<Rightarrow> MapSet" where
  "map_abc m = [(''d'', ''a''), (''d'', ''b''), (''d'', ''c'')]"

definition map_ab :: "message \<Rightarrow> MapSet" where
  "map_ab m = [(''d'', ''a''), (''d'', ''b'')]"

definition keyed :: message where
  "keyed = \<lparr>isUnicast = False, msg_To = \<lparr>StageId = 0, ActorName = [], RcvrId = 0\<rparr>, payload = ''m''\<rparr>"

definition mh_abc :: msgAndHandler where
  "mh_abc = \<lparr>mh_msg = keyed, handler = Some map_abc\<rparr>"

definition mh_ab :: msgAndHandler where
  "mh_ab = \<lparr>mh_msg = keyed, handler = Some map_ab\<rparr>"

definition returned :: "'a result option \<Rightarrow> 'a option" where
  "returned r = (case r of Some (Ret x) \<Rightarrow> Some x | _ \<Rightarrow> None)"

definition mapr_full :: mapper where
  "mapr_full = mapr_iso\<lparr>lastRId := 4294967295\<rparr>"

definition mapr_remote :: mapper where
  "mapr_remote = mapr_iso\<lparr>isIsol := False, cluster := quiet st_one_foreign\<rparr>"

definition rid3 :: ReceiverId where
  "rid3 = \<lparr>StageId = 1, ActorName = ''X'', RcvrId = 3\<rparr>"

definition ridRemote :: ReceiverId where
  "ridRemote = \<lparr>StageId = 2, ActorName = ''X'', RcvrId = 5\<rparr>"

definition proxyA :: rcvr where
  "proxyA = \<lparr>ref = 2, kind = ProxyRcvr, rId = ridRemote, dataCh = 0\<rparr>"

definition all_ok :: migration where
  "all_ok = \<lparr>stopAck = None, dial = None, encHandshake = None, encCommand = None,
             decoded = Inr ridRemote\<rparr>"

definition dial_fails :: migration where
  "dial_fails = all_ok\<lparr>dial := Some (NetError False)\<rparr>"

definition ridDetached :: ReceiverId where
  "ridDetached = \<lparr>StageId = 1, ActorName = ''X'', RcvrId = 0\<rparr>"

section \<open>Properties of the registry\<close>

lemma Eq_iff: "Eq a b \<longleftrightarrow> a = b"
  by (cases a, cases b) (simp add: Eq_def)

lemma readKeys_validated:
  "readKeys rid s ms v mv True = Ret (v', mv') \<Longrightarrow>
     v' = v \<and> mv' = mv \<and> (\<forall>dk\<in>set ms. s (keyOf rid dk) = None \<or> s (keyOf rid dk) = Some (Encoded v))"
proof (induction ms)
  case Nil
  then show ?case by simp
next
  case (Cons dk ms)
  then show ?case
    by (cases "s (keyOf rid dk)")
       (auto simp: Get_def unmarshallRegValOrFail_def unmarshallRegVal_def Eq_iff
             split: node_value.splits if_splits)
qed

lemma readKeys_own:
  "\<forall>dk\<in>set ms. s (keyOf rid dk) = None \<or> s (keyOf rid dk) = Some (Encoded v) \<Longrightarrow>
     readKeys rid s ms v mv b = Ret (v, mv)"
  by (induction ms) (auto simp: Get_def unmarshallRegValOrFail_def unmarshallRegVal_def Eq_iff)

lemma readKeys_adopts:
  "readKeys rid s ms v (Encoded v) b = Ret (v', mv') \<Longrightarrow>
     mv' = Encoded v' \<and>
     (\<forall>dk\<in>set ms. \<forall>f. s (keyOf rid dk) = Some (Encoded f) \<and> f \<noteq> v \<longrightarrow> v' = f)"
proof (induction ms)
  case Nil
  then show ?case by auto
next
  case (Cons dk ms)
  show ?case
  proof (cases "s (keyOf rid dk)")
    case None
    with Cons show ?thesis by (simp add: Get_def)
  next
    case (Some d)
    show ?thesis
    proof (cases d)
      case (Malformed t)
      with Some Cons.prems show ?thesis
        by (simp add: Get_def unmarshallRegValOrFail_def unmarshallRegVal_def)
    next
      case (Encoded resV)
      show ?thesis
      proof (cases "resV = v")
        case True
        with Some Encoded Cons show ?thesis
          by (simp add: Get_def unmarshallRegValOrFail_def unmarshallRegVal_def Eq_iff)
      next
        case False
        with Some Encoded Cons.prems have nb: "\<not> b"
          and rec: "readKeys rid s ms resV (Encoded resV) True = Ret (v', mv')"
          by (auto simp: Get_def unmarshallRegValOrFail_def unmarshallRegVal_def Eq_iff
                   split: if_splits)
        from readKeys_validated [OF rec]
        have "v' = resV" "mv' = Encoded resV"
          and rest: "\<forall>dk\<in>set ms. s (keyOf rid dk) = None \<or> s (keyOf rid dk) = Some (Encoded resV)"
          by simp_all
        with Some Encoded show ?thesis by auto
      qed
    qed
  qed
qed

lemma createKeys_at:
  "createKeys g rid mv ms s p =
     (if p \<in> keyOf rid ` set ms \<and> s p = None then Some mv else s p)"
  by (induction ms arbitrary: s) (auto simp: Create_def)

lemma lockActor_loop_acquired:
  "lockActor_loop g k v ws s = Some (None, w1) \<Longrightarrow> etcd w1 k = Some v"
  by (induction ws arbitrary: s)
     (auto simp: Create_def split: if_splits watch_result.splits)

lemma lockActor_acquired:
  "lockActor g rid w = Some (None, w1) \<Longrightarrow> etcd w1 (lockKeyOf g rid) = Some (Encoded (regValOf rid))"
  unfolding lockActor_def marshallRegValOrFail_def by (rule lockActor_loop_acquired)

lemma unlockActor_frame:
  "unlockActor g rid w = Ret (uerr, w') \<Longrightarrow> p \<noteq> lockKeyOf g rid \<Longrightarrow> etcd w' p = etcd w p"
  by (auto simp: unlockActor_def Let_def Get_def Delete_def unmarshallRegValOrFail_def
        unmarshallRegVal_def split: option.splits node_value.splits if_splits)

lemma unlockActor_own:
  "etcd w (lockKeyOf g rid) = Some (Encoded (regValOf rid)) \<Longrightarrow>
     \<exists>w'. unlockActor g rid w = Ret (None, w')"
  by (simp add: unlockActor_def Let_def Get_def Delete_def unmarshallRegValOrFail_def
        unmarshallRegVal_def Eq_iff)

lemma readKeys_single:
  "\<forall>dk\<in>set ms. s (keyOf rid dk) = None \<or> s (keyOf rid dk) = Some (Encoded f) \<Longrightarrow>
   \<exists>dk\<in>set ms. s (keyOf rid dk) = Some (Encoded f) \<Longrightarrow>
     readKeys rid s ms v (Encoded v) False = Ret (f, Encoded f)"
proof (induction ms)
  case Nil
  then show ?case by simp
next
  case (Cons dk ms)
  show ?case
  proof (cases "s (keyOf rid dk)")
    case None
    with Cons show ?thesis by (simp add: Get_def)
  next
    case (Some d)
    with Cons.prems have d: "d = Encoded f" by auto
    from Cons.prems
    have rest: "\<forall>dk\<in>set ms. s (keyOf rid dk) = None \<or> s (keyOf rid dk) = Some (Encoded f)"
      by simp
    show ?thesis
    proof (cases "f = v")
      case True
      from Cons.prems(1) True
      have "\<forall>dk'\<in>set (dk # ms). s (keyOf rid dk') = None \<or> s (keyOf rid dk') = Some (Encoded v)"
        by simp
      from readKeys_own [OF this] True show ?thesis by simp
    next
      case False
      with Some d readKeys_own [OF rest, of "Encoded f" True] show ?thesis
        by (simp add: Get_def unmarshallRegValOrFail_def unmarshallRegVal_def Eq_iff)
    qed
  qed
qed

lemma storeOrGet_Ret:
  assumes lk: "lockActor g rid w = Some (lerr, w1)"
    and rd: "readKeys rid (etcd w1) (sort ms) (regValOf rid) (Encoded (regValOf rid)) False = Ret (v, mv)"
    and ul: "unlockActor g rid (w1\<lparr>etcd := createKeys g rid mv (sort ms) (etcd w1)\<rparr>) = Ret (uerr, w3)"
  shows "storeOrGet g rid ms w = Some (Ret v, w3)"
  using lk rd ul by (simp add: storeOrGet_def Let_def marshallRegValOrFail_def)

lemma storeOrGet_RetD:
  assumes lk: "lockActor g rid w = Some (lerr, w1)"
    and sg: "storeOrGet g rid ms w = Some (Ret v, w')"
  shows "\<exists>mv uerr. readKeys rid (etcd w1) (sort ms) (regValOf rid) (Encoded (regValOf rid)) False = Ret (v, mv)
     \<and> unlockActor g rid (w1\<lparr>etcd := createKeys g rid mv (sort ms) (etcd w1)\<rparr>) = Ret (uerr, w')"
  using lk sg
  by (auto simp: storeOrGet_def Let_def marshallRegValOrFail_def split: result.splits prod.splits)

lemma storeOrGet_own_returns:
  assumes lk: "lockActor g rid w = Some (None, w1)"
    and nl: "lockKeyOf g rid \<notin> keyOf rid ` set ms"
    and rd: "readKeys rid (etcd w1) (sort ms) (regValOf rid) (Encoded (regValOf rid)) False = Ret (v, mv)"
  shows "\<exists>w'. storeOrGet g rid ms w = Some (Ret v, w')"
proof -
  let ?w2 = "w1\<lparr>etcd := createKeys g rid mv (sort ms) (etcd w1)\<rparr>"
  from nl lockActor_acquired [OF lk]
  have "etcd ?w2 (lockKeyOf g rid) = Some (Encoded (regValOf rid))"
    by (simp add: createKeys_at)
  from unlockActor_own [OF this] obtain w' where "unlockActor g rid ?w2 = Ret (None, w')" ..
  with storeOrGet_Ret [OF lk rd] show ?thesis by blast
qed

text \<open>
  C1 (amended). Let \<open>lockActor\<close> return, leaving world \<open>w1\<close>, and let the lock's key not be
  the key of a member of \<open>ms\<close>. If the lock was acquired and no key of \<open>ms\<close> holds a value
  other than the caller's, \<open>storeOrGet\<close> returns the caller's RegVal; if the lock was acquired
  and the keys of \<open>ms\<close> that exist all hold one RegVal \<open>f\<close>, it returns \<open>f\<close>. Whenever
  \<open>storeOrGet\<close> returns a value \<open>v\<close>: every foreign RegVal held by a key of \<open>ms\<close> is \<open>v\<close>,
  every key of \<open>ms\<close> that was absent holds \<open>v\<close> afterwards, and every key of \<open>ms\<close> that
  existed holds what it held.
\<close>

theorem storeOrGet_returned_value:
  assumes lk: "lockActor g rid w = Some (lerr, w1)"
    and nl: "lockKeyOf g rid \<notin> keyOf rid ` set ms"
  shows "(lerr = None \<and>
            (\<forall>dk\<in>set ms. etcd w1 (keyOf rid dk) = None \<or>
                           etcd w1 (keyOf rid dk) = Some (Encoded (regValOf rid)))
          \<longrightarrow> (\<exists>w'. storeOrGet g rid ms w = Some (Ret (regValOf rid), w')))
       \<and> (lerr = None \<and>
            (\<exists>dk\<in>set ms. etcd w1 (keyOf rid dk) = Some (Encoded f)) \<and>
            (\<forall>dk\<in>set ms. etcd w1 (keyOf rid dk) = None \<or>
                           etcd w1 (keyOf rid dk) = Some (Encoded f))
          \<longrightarrow> (\<exists>w'. storeOrGet g rid ms w = Some (Ret f, w')))
       \<and> (\<forall>v w'. storeOrGet g rid ms w = Some (Ret v, w') \<longrightarrow>
            (\<forall>dk\<in>set ms. \<forall>x. etcd w1 (keyOf rid dk) = Some (Encoded x) \<and> x \<noteq> regValOf rid
                \<longrightarrow> v = x)
          \<and> (\<forall>dk\<in>set ms. etcd w1 (keyOf rid dk) = None
                \<longrightarrow> etcd w' (keyOf rid dk) = Some (Encoded v))
          \<and> (\<forall>dk\<in>set ms. etcd w1 (keyOf rid dk) \<noteq> None
                \<longrightarrow> etcd w' (keyOf rid dk) = etcd w1 (keyOf rid dk)))"
proof (intro conjI impI allI)
  assume a: "lerr = None \<and>
            (\<forall>dk\<in>set ms. etcd w1 (keyOf rid dk) = None \<or>
                           etcd w1 (keyOf rid dk) = Some (Encoded (regValOf rid)))"
  then have "readKeys rid (etcd w1) (sort ms) (regValOf rid) (Encoded (regValOf rid)) False
               = Ret (regValOf rid, Encoded (regValOf rid))"
    by (intro readKeys_own) simp
  with a lk nl show "\<exists>w'. storeOrGet g rid ms w = Some (Ret (regValOf rid), w')"
    by (auto intro: storeOrGet_own_returns)
next
  assume a: "lerr = None \<and>
            (\<exists>dk\<in>set ms. etcd w1 (keyOf rid dk) = Some (Encoded f)) \<and>
            (\<forall>dk\<in>set ms. etcd w1 (keyOf rid dk) = None \<or>
                           etcd w1 (keyOf rid dk) = Some (Encoded f))"
  then have "readKeys rid (etcd w1) (sort ms) (regValOf rid) (Encoded (regValOf rid)) False
               = Ret (f, Encoded f)"
    by (intro readKeys_single) simp_all
  with a lk nl show "\<exists>w'. storeOrGet g rid ms w = Some (Ret f, w')"
    by (auto intro: storeOrGet_own_returns)
next
  fix v w'
  assume sg: "storeOrGet g rid ms w = Some (Ret v, w')"
  from storeOrGet_RetD [OF lk sg] obtain mv uerr
    where rd: "readKeys rid (etcd w1) (sort ms) (regValOf rid) (Encoded (regValOf rid)) False = Ret (v, mv)"
      and ul: "unlockActor g rid (w1\<lparr>etcd := createKeys g rid mv (sort ms) (etcd w1)\<rparr>) = Ret (uerr, w')"
    by blast
  from readKeys_adopts [OF rd]
  have mv: "mv = Encoded v"
    and ad: "\<forall>dk\<in>set ms. \<forall>x. etcd w1 (keyOf rid dk) = Some (Encoded x) \<and> x \<noteq> regValOf rid \<longrightarrow> v = x"
    by simp_all
  have fr: "etcd w' (keyOf rid dk) = createKeys g rid mv (sort ms) (etcd w1) (keyOf rid dk)"
    if "dk \<in> set ms" for dk
  proof -
    from nl that have "keyOf rid dk \<noteq> lockKeyOf g rid" by (metis imageI)
    from unlockActor_frame [OF ul this] show ?thesis by simp
  qed
  show "\<forall>dk\<in>set ms. \<forall>x. etcd w1 (keyOf rid dk) = Some (Encoded x) \<and> x \<noteq> regValOf rid \<longrightarrow> v = x"
    by (rule ad)
  show "\<forall>dk\<in>set ms. etcd w1 (keyOf rid dk) = None \<longrightarrow> etcd w' (keyOf rid dk) = Some (Encoded v)"
    by (simp add: fr createKeys_at mv)
  show "\<forall>dk\<in>set ms. etcd w1 (keyOf rid dk) \<noteq> None \<longrightarrow> etcd w' (keyOf rid dk) = etcd w1 (keyOf rid dk)"
    by (simp add: fr createKeys_at)
qed

subsection \<open>The registry at concrete stores\<close>

lemmas ex_defs = g0_def rid0_def own0_def owner2_def owner3_def quiet_def
  st_two_foreign_def st_foreign_own_def st_own_foreign_def st_one_foreign_def st_locked_def
  w_contended_def

lemmas reg_defs = storeOrGet_def lockActor_def unlockActor_def lockKeyOf_def keyOf_def
  keyFmtStr_def lockFileName_def path_def regValOf_def marshallRegValOrFail_def
  unmarshallRegValOrFail_def unmarshallRegVal_def Create_def Get_def Delete_def Eq_def
  Dict_def Key_def Let_def lockHolder_def

lemma sort_ms_ca: "sort ms_ca = [(''d'', ''a''), (''d'', ''c'')]"
  by (simp add: ms_ca_def)

lemma keys_ms_ca: "keyOf rid0 ` set ms_ca = {''/theatre/X/d/c'', ''/theatre/X/d/a''}"
  by (simp add: ms_ca_def keyOf_def keyFmtStr_def Dict_def Key_def rid0_def)

lemma lockKey_g0: "lockKeyOf g0 rid0 = ''/theatre/X/__lock__''"
  by (simp add: lockKeyOf_def path_def lockFileName_def g0_def rid0_def)

text \<open>
  C1, as stated, fails where two keys of \<open>ms\<close> hold two distinct foreign RegVals: a key
  holds a foreign RegVal, and nothing is returned, the call ends the process.
\<close>

theorem storeOrGet_two_foreign_not_returned:
  "map_option fst (storeOrGet g0 rid0 ms_ca (quiet st_two_foreign))
     = Some (Fatal (Incosistencies rid0 owner2 owner3))"
  by (simp add: sort_ms_ca reg_defs ex_defs)

text \<open>
  C1 (amended) at a store where \<open>(d, a)\<close> is held by another owner and \<open>(d, c)\<close> is absent:
  the other owner is returned and written to \<open>(d, c)\<close>, and \<open>(d, a)\<close> keeps its value.
\<close>

theorem storeOrGet_returned_value_witness:
  "lockActor g0 rid0 (quiet st_one_foreign)
     = Some (None, quiet (st_one_foreign(''/theatre/X/__lock__'' \<mapsto> Encoded own0)))
   \<and> lockKeyOf g0 rid0 \<notin> keyOf rid0 ` set ms_ca
   \<and> map_option (apsnd (\<lambda>w'. (etcd w' ''/theatre/X/d/c'', etcd w' ''/theatre/X/d/a'')))
         (storeOrGet g0 rid0 ms_ca (quiet st_one_foreign))
       = Some (Ret owner2, Some (Encoded owner2), Some (Encoded owner2))"
proof -
  let ?w1 = "quiet (st_one_foreign(''/theatre/X/__lock__'' \<mapsto> Encoded own0))"
  have lk: "lockActor g0 rid0 (quiet st_one_foreign) = Some (None, ?w1)"
    by (simp add: reg_defs ex_defs)
  have nl: "lockKeyOf g0 rid0 \<notin> keyOf rid0 ` set ms_ca"
    by (simp add: keys_ms_ca lockKey_g0)
  have a: "etcd ?w1 (keyOf rid0 (''d'', ''a'')) = Some (Encoded owner2)"
    and c: "etcd ?w1 (keyOf rid0 (''d'', ''c'')) = None"
    by (simp_all add: reg_defs ex_defs)
  note inst = storeOrGet_returned_value [OF lk nl, of owner2]
  from a c have "\<exists>w'. storeOrGet g0 rid0 ms_ca (quiet st_one_foreign) = Some (Ret owner2, w')"
    by (intro inst [THEN conjunct2, THEN conjunct1, rule_format]) (simp add: ms_ca_def)
  then obtain w' where sg: "storeOrGet g0 rid0 ms_ca (quiet st_one_foreign) = Some (Ret owner2, w')" ..
  note post = inst [THEN conjunct2, THEN conjunct2, rule_format, OF sg]
  from post [THEN conjunct2, THEN conjunct1, rule_format, of "(''d'', ''c'')"] c
  have "etcd w' (keyOf rid0 (''d'', ''c'')) = Some (Encoded owner2)"
    by (simp add: ms_ca_def)
  moreover
  from post [THEN conjunct2, THEN conjunct2, rule_format, of "(''d'', ''a'')"] a
  have "etcd w' (keyOf rid0 (''d'', ''a'')) = Some (Encoded owner2)"
    by (simp add: ms_ca_def)
  ultimately have "etcd w' ''/theatre/X/d/c'' = Some (Encoded owner2)"
    and "etcd w' ''/theatre/X/d/a'' = Some (Encoded owner2)"
    by (simp_all add: keyOf_def keyFmtStr_def Dict_def Key_def rid0_def)
  with lk nl sg show ?thesis by simp
qed

text \<open>
  C2. With \<open>(d, a)\<close> held by one foreign owner and \<open>(d, c)\<close> by the caller, the existing keys
  hold the caller's RegVal or one single foreign RegVal, and \<open>storeOrGet\<close> takes the fatal
  branch: the second value is compared with the adopted foreign value, not with the
  caller's. With the two values the other way round the call returns the foreign owner.
\<close>

theorem storeOrGet_fatal_depends_on_order:
  "map_option fst (storeOrGet g0 rid0 ms_ca (quiet st_foreign_own))
     = Some (Fatal (Incosistencies rid0 owner2 own0))
   \<and> map_option fst (storeOrGet g0 rid0 ms_ca (quiet st_own_foreign)) = Some (Ret owner2)"
  by (simp add: sort_ms_ca reg_defs ex_defs)

text \<open>
  C6. On the fatal path the process ends with the actor's lock still held by the caller.
  Where the lock is held by another owner and \<open>Watch\<close> fails, \<open>lockActor\<close> returns an error,
  and \<open>storeOrGet\<close> reads and creates the keys all the same, the lock being the other
  owner's from beginning to end.
\<close>

theorem storeOrGet_lock_not_held_or_not_released:
  "map_option (apsnd (lockHolder g0 rid0)) (storeOrGet g0 rid0 ms_ca (quiet st_two_foreign))
     = Some (Fatal (Incosistencies rid0 owner2 owner3), Some (Encoded own0))
   \<and> lockHolder g0 rid0 w_contended = Some (Encoded owner2)
   \<and> lockActor g0 rid0 w_contended = Some (Some WatchFailed, quiet st_locked)
   \<and> map_option (apsnd (\<lambda>w'. (lockHolder g0 rid0 w', etcd w' ''/theatre/X/d/a'')))
         (storeOrGet g0 rid0 ms_ca w_contended)
       = Some (Ret own0, Some (Encoded owner2), Some (Encoded own0))"
  by (simp add: sort_ms_ca reg_defs ex_defs)

section \<open>Properties of the RPC client pool and server\<close>

lemma wrap64_small: "0 \<le> x \<Longrightarrow> x < 2 ^ 63 \<Longrightarrow> wrap64 x = x"
  by (simp add: wrap64_def)

lemma maxWait_val: "maxWait = 8000000000"
  by (simp add: maxWait_def Second_def)

lemma minWait_val: "minWait = 50000000"
  by (simp add: minWait_def Millisecond_def)

lemma newClient_dial_failed:
  assumes nc: "newClient p hive at = (Inl err, p', [a])"
    and w0: "0 \<le> wait (fst (lookupRetry p hive))" "wait (fst (lookupRetry p hive)) \<le> maxWait"
  shows "\<exists>t'. retries p' hive = Some t'
           \<and> wait t' = min maxWait (2 * wait (fst (lookupRetry p hive)))
           \<and> nextT t' = now at + wait t'"
proof -
  obtain t p1 where lr: "lookupRetry p hive = (t, p1)" by (cases "lookupRetry p hive")
  from w0 lr have w: "0 \<le> wait t" "wait t \<le> maxWait" by simp_all
  then have "wait t * 2 < 2 ^ 63" by (simp add: maxWait_val)
  with w have wr: "wrap64 (wait t * 2) = wait t * 2" by (intro wrap64_small) simp_all
  from nc lr show ?thesis
    by (auto simp: newClient_def Let_def setRetry_def wr lookupHive_def min_def
             split: option.splits if_splits sum.splits)
qed


lemma newClient_dial_failed_retry:
  assumes nc: "newClient p hive at = (Inl err, p', [a])"
  shows "\<exists>t'. retries p' hive = Some t'"
proof -
  obtain t p1 where lr: "lookupRetry p hive = (t, p1)" by (cases "lookupRetry p hive")
  from nc lr show ?thesis
    by (auto simp: newClient_def Let_def setRetry_def lookupHive_def
             split: option.splits if_splits sum.splits)
qed

lemma lookupRetry_Some: "retries p hive = Some t \<Longrightarrow> lookupRetry p hive = (t, p)"
  by (simp add: lookupRetry_def)

lemma min_double:
  fixes w :: int
  assumes "0 \<le> w"
  shows "min maxWait (2 ^ k * min maxWait (2 * w)) = min maxWait (2 ^ Suc k * w)"
proof (cases "maxWait \<le> 2 * w")
  case True
  have one: "(1::int) \<le> 2 ^ k" by simp
  have mw: "0 \<le> maxWait" by (simp add: maxWait_val)
  from mult_right_mono [OF one mw] have a: "maxWait \<le> 2 ^ k * maxWait" by simp
  from True have b: "2 ^ k * maxWait \<le> 2 ^ k * (2 * w)"
    by (intro mult_left_mono) simp_all
  from a b have c: "maxWait \<le> 2 ^ k * (2 * w)" by (rule order_trans)
  have "(2::int) ^ k * (2 * w) = 2 ^ Suc k * w" by simp
  with c have "maxWait \<le> 2 ^ Suc k * w" by (simp only:)
  with a True show ?thesis by (simp only: min_def if_True)
next
  case False
  then show ?thesis by (simp add: min_def mult.assoc)
qed

lemma failedDials_wait:
  assumes "failedDials p hive ats = Some p'" and "ats \<noteq> []"
    and "0 \<le> wait (fst (lookupRetry p hive))" and "wait (fst (lookupRetry p hive)) \<le> maxWait"
  shows "\<exists>t'. retries p' hive = Some t'
           \<and> wait t' = min maxWait (2 ^ length ats * wait (fst (lookupRetry p hive)))
           \<and> nextT t' = now (last ats) + wait t'"
  using assms
proof (induction ats arbitrary: p)
  case Nil
  then show ?case by simp
next
  case (Cons at ats)
  from Cons.prems(1) obtain err p1 a
    where nc: "newClient p hive at = (Inl err, p1, [a])"
      and rest: "failedDials p1 hive ats = Some p'"
    by (auto split: prod.splits sum.splits list.splits if_splits)
  let ?w = "wait (fst (lookupRetry p hive))"
  from newClient_dial_failed [OF nc Cons.prems(3) Cons.prems(4)]
  obtain t1 where t1: "retries p1 hive = Some t1" "wait t1 = min maxWait (2 * ?w)"
    "nextT t1 = now at + wait t1"
    by blast
  show ?case
  proof (cases "ats = []")
    case True
    with rest t1 show ?thesis by simp
  next
    case False
    from t1 have lr1: "fst (lookupRetry p1 hive) = t1" by (simp add: lookupRetry_Some)
    from t1 Cons.prems(3) have b: "0 \<le> wait t1" "wait t1 \<le> maxWait"
      by (simp_all add: maxWait_val)
    from Cons.IH [OF rest False] b lr1
    obtain t' where t': "retries p' hive = Some t'"
      "wait t' = min maxWait (2 ^ length ats * wait t1)"
      "nextT t' = now (last ats) + wait t'"
      by auto
    from t'(2) t1(2) min_double [OF Cons.prems(3), of "length ats"]
    have "wait t' = min maxWait (2 ^ length (at # ats) * ?w)" by simp
    with t' False show ?thesis by simp
  qed
qed

lemma lookupRetry_fresh:
  "retries p hive = None \<Longrightarrow> fst (lookupRetry p hive) = \<lparr>nextT = 0, wait = minWait, tries = 0\<rparr>"
  by (simp add: lookupRetry_def Let_def)

lemma resetHiveClient_backoff:
  assumes c: "lookupHive q hive = None \<or> samePtr (lookupHive q hive) prev"
    and b: "now at \<le> nextT (fst (lookupRetry q hive))"
  shows "resetHiveClient q hive prev at
     = (Inl (BackoffError (nextT (fst (lookupRetry q hive)))),
        snd (lookupRetry (deleteHive q hive) hive), [])"
proof -
  have lr: "fst (lookupRetry (deleteHive q hive) hive) = fst (lookupRetry q hive)"
    by (cases "retries q hive") (simp_all add: lookupRetry_def deleteHive_def Let_def)
  have nc: "newClient (deleteHive q hive) hive at
     = (Inl (BackoffError (nextT (fst (lookupRetry q hive)))),
        snd (lookupRetry (deleteHive q hive) hive), [])"
    using b lr
    by (cases "retries q hive")
       (auto simp: newClient_def lookupRetry_def lookupHive_def deleteHive_def Let_def)
  from c show ?thesis
    by (cases "lookupHive q hive") (auto simp: resetHiveClient_def nc)
qed

text \<open>
  C7. From a fresh retry state, after the \<open>k \<ge> 1\<close> consecutive failed dials \<open>ats\<close>, \<open>wait\<close> is
  \<open>min(8 s, 2^k \<cdot> 50 ms)\<close> and \<open>next\<close> is the time of the last dial plus that. A call of
  \<open>newClient\<close> for a peer without a cached client, made not after \<open>next\<close>, returns the
  BackoffError until \<open>next\<close>, temporary and timeout, and calls \<open>newRPCClient\<close> with no address;
  so does every call of \<open>resetHiveClient\<close> that does not return a cached client.
  A call made after \<open>next\<close> whose dial succeeds returns the client, caches it, and sets \<open>wait\<close>
  to 1 s and \<open>next\<close> to the time of the call.
\<close>

theorem newClient_backoff:
  "(retries p hive = None \<and> ats \<noteq> [] \<and> failedDials p hive ats = Some p'
      \<longrightarrow> (\<exists>t. retries p' hive = Some t
             \<and> wait t = min maxWait (2 ^ length ats * minWait)
             \<and> nextT t = now (last ats) + min maxWait (2 ^ length ats * minWait)))
   \<and> (hiveClients q hive = None \<and> now at \<le> nextT (fst (lookupRetry q hive))
      \<longrightarrow> newClient q hive at
            = (Inl (BackoffError (nextT (fst (lookupRetry q hive)))), snd (lookupRetry q hive), [])
          \<and> Temporary (BackoffError (nextT (fst (lookupRetry q hive))))
          \<and> Timeout (BackoffError (nextT (fst (lookupRetry q hive)))))
   \<and> (hiveClients q hive = None \<and> nextT (fst (lookupRetry q hive)) < now at
        \<and> peers q hive = Some a \<and> cmdConn (net at) = Inr c
      \<longrightarrow> (\<exists>client q' t. newClient q hive at = (Inr client, q', [a])
             \<and> hiveClients q' hive = Some client
             \<and> retries q' hive = Some t \<and> wait t = 1 * Second \<and> nextT t = now at))
   \<and> ((lookupHive q hive = None \<or> samePtr (lookupHive q hive) prev)
        \<and> now at \<le> nextT (fst (lookupRetry q hive))
      \<longrightarrow> resetHiveClient q hive prev at
            = (Inl (BackoffError (nextT (fst (lookupRetry q hive)))),
               snd (lookupRetry (deleteHive q hive) hive), []))"
proof (intro conjI impI)
  assume a: "retries p hive = None \<and> ats \<noteq> [] \<and> failedDials p hive ats = Some p'"
  then have fr: "wait (fst (lookupRetry p hive)) = minWait"
    by (simp add: lookupRetry_fresh)
  from a have "\<exists>t'. retries p' hive = Some t'
           \<and> wait t' = min maxWait (2 ^ length ats * wait (fst (lookupRetry p hive)))
           \<and> nextT t' = now (last ats) + wait t'"
    by (intro failedDials_wait) (simp_all add: fr minWait_val maxWait_val)
  with fr show "\<exists>t. retries p' hive = Some t
             \<and> wait t = min maxWait (2 ^ length ats * minWait)
             \<and> nextT t = now (last ats) + min maxWait (2 ^ length ats * minWait)"
    by auto
next
  assume "hiveClients q hive = None \<and> now at \<le> nextT (fst (lookupRetry q hive))"
  then show "newClient q hive at
            = (Inl (BackoffError (nextT (fst (lookupRetry q hive)))), snd (lookupRetry q hive), [])"
    by (cases "retries q hive")
       (auto simp: newClient_def lookupRetry_def lookupHive_def Let_def)
next
  show "Temporary (BackoffError (nextT (fst (lookupRetry q hive))))" by simp
next
  show "Timeout (BackoffError (nextT (fst (lookupRetry q hive))))" by simp
next
  assume "hiveClients q hive = None \<and> nextT (fst (lookupRetry q hive)) < now at
        \<and> peers q hive = Some a \<and> cmdConn (net at) = Inr c"
  then show "\<exists>client q' t. newClient q hive at = (Inr client, q', [a])
             \<and> hiveClients q' hive = Some client
             \<and> retries q' hive = Some t \<and> wait t = 1 * Second \<and> nextT t = now at"
    by (cases "retries q hive")
       (auto simp: newClient_def lookupRetry_def lookupHive_def Let_def newRPCClient_def
                   setHive_def setRetry_def)
next
  assume "(lookupHive q hive = None \<or> samePtr (lookupHive q hive) prev)
        \<and> now at \<le> nextT (fst (lookupRetry q hive))"
  then show "resetHiveClient q hive prev at
            = (Inl (BackoffError (nextT (fst (lookupRetry q hive)))),
               snd (lookupRetry (deleteHive q hive) hive), [])"
    by (intro resetHiveClient_backoff) simp_all
qed

lemmas rpc_defs = newClient_def lookupRetry_def lookupHive_def setRetry_def setHive_def
  newRPCClient_def wrap64_def maxWait_def minWait_def Second_def Millisecond_def Let_def

lemma failedDials_pool0:
  "failedDials pool0 2 [\<lparr>now = 1 * Millisecond, net = refused\<rparr>, \<lparr>now = 200 * Millisecond, net = refused\<rparr>]
     = Some pool_failed2"
  by (simp add: rpc_defs pool0_def refused_def pool_failed2_def)

text \<open>
  C7 at the pool that knows peer 2: two refused dials, then a call at 300 ms, before
  \<open>next = 400 ms\<close>, and a call at 500 ms that is accepted.
\<close>

theorem newClient_backoff_witness:
  "retries pool0 2 = None
   \<and> failedDials pool0 2 [\<lparr>now = 1 * Millisecond, net = refused\<rparr>, \<lparr>now = 200 * Millisecond, net = refused\<rparr>]
       = Some pool_failed2
   \<and> map_option wait (retries pool_failed2 2) = Some (200 * Millisecond)
   \<and> map_option nextT (retries pool_failed2 2) = Some (200 * Millisecond + 200 * Millisecond)
   \<and> hiveClients pool_failed2 2 = None
   \<and> newClient pool_failed2 2 \<lparr>now = 300 * Millisecond, net = accepted\<rparr>
       = (Inl (BackoffError (400 * Millisecond)), pool_failed2, [])
   \<and> peers pool_failed2 2 = Some ''10.0.0.2:7767''
   \<and> map_option wait (retries (fst (snd (newClient pool_failed2 2 \<lparr>now = 500 * Millisecond, net = accepted\<rparr>))) 2)
       = Some Second
   \<and> map_option nextT (retries (fst (snd (newClient pool_failed2 2 \<lparr>now = 500 * Millisecond, net = accepted\<rparr>))) 2)
       = Some (500 * Millisecond)
   \<and> lookupHive pool_failed2 2 = None
   \<and> resetHiveClient pool_failed2 2 None \<lparr>now = 300 * Millisecond, net = accepted\<rparr>
       = (Inl (BackoffError (400 * Millisecond)), pool_failed2, [])"
proof -
  let ?ats = "[\<lparr>now = 1 * Millisecond, net = refused\<rparr>, \<lparr>now = 200 * Millisecond, net = refused\<rparr>]"
  let ?early = "\<lparr>now = 300 * Millisecond, net = accepted\<rparr>"
  let ?late = "\<lparr>now = 500 * Millisecond, net = accepted\<rparr>"
  note inst = newClient_backoff [of pool0 2 ?ats pool_failed2 pool_failed2 ?early "''10.0.0.2:7767''" 1 None]
  note inst2 = newClient_backoff [of pool0 2 ?ats pool_failed2 pool_failed2 ?late "''10.0.0.2:7767''" 1 None]
  have fresh: "retries pool0 2 = None" by (simp add: pool0_def)
  have lr: "lookupRetry pool_failed2 2
      = (\<lparr>nextT = 400 * Millisecond, wait = 200 * Millisecond, tries = 2\<rparr>, pool_failed2)"
    by (simp add: lookupRetry_def pool_failed2_def)
  have nc: "hiveClients pool_failed2 2 = None" by (simp add: pool_failed2_def pool0_def)
  have pr: "peers pool_failed2 2 = Some ''10.0.0.2:7767''" by (simp add: pool_failed2_def pool0_def)
  from inst [THEN conjunct1] fresh failedDials_pool0
  obtain t where t: "retries pool_failed2 2 = Some t"
    "wait t = min maxWait (2 ^ 2 * minWait)"
    "nextT t = 200 * Millisecond + min maxWait (2 ^ 2 * minWait)"
    by auto
  have m: "min maxWait (2 ^ 2 * minWait) = 200 * Millisecond"
    by (simp add: maxWait_def minWait_def Second_def Millisecond_def)
  from inst [THEN conjunct2, THEN conjunct1] nc lr
  have early: "newClient pool_failed2 2 ?early = (Inl (BackoffError (400 * Millisecond)), pool_failed2, [])"
    by (simp add: Millisecond_def)
  from inst2 [THEN conjunct2, THEN conjunct2, THEN conjunct1] nc lr pr
  obtain client q' t' where late: "newClient pool_failed2 2 ?late = (Inr client, q', [''10.0.0.2:7767''])"
    "retries q' 2 = Some t'" "wait t' = 1 * Second" "nextT t' = 500 * Millisecond"
    by (auto simp: Millisecond_def accepted_def)
  have lh: "lookupHive pool_failed2 2 = None" by (simp add: lookupHive_def nc)
  have dh: "deleteHive pool_failed2 2 = pool_failed2"
    by (simp add: deleteHive_def pool_failed2_def pool0_def)
  from inst [THEN conjunct2, THEN conjunct2, THEN conjunct2] lh lr
  have rs: "resetHiveClient pool_failed2 2 None ?early
      = (Inl (BackoffError (400 * Millisecond)), pool_failed2, [])"
    by (simp add: dh Millisecond_def)
  from fresh failedDials_pool0 t m nc early pr late lh rs show ?thesis
    by simp
qed














lemma ProcessCmd_first_only:
  "dispatch h reply c = Some r \<Longrightarrow>
     ProcessCmd h reply (c # cs) res = Some (r # replicate (length cs) zeroResult)"
  by (simp add: ProcessCmd_def)

text \<open>
  C9. Two commands for other hives: each has the error of its own, and \<open>ProcessCmd\<close>
  returns \<open>nil\<close> with the error of the first in slot 0 and slot 1 empty (neither data nor
  error), because the loop over the channels returns after the first result.
\<close>

theorem ProcessCmd_second_slot_empty:
  "ProcessCmd hive1 no_reply cmds2 [] = Some [wrongHive, zeroResult]
   \<and> dispatch hive1 no_reply (cmds2 ! 1) = Some wrongHive
   \<and> wrongHive \<noteq> zeroResult"
  by (simp add: ProcessCmd_def dispatch_def cmds2_def hive1_def wrongHive_def zeroResult_def Nil_def)

section \<open>Properties of the mapper\<close>

lemma setReceiver_map:
  "map_of (keyToRcvrs (setReceiver mapr dk r)) = (map_of (keyToRcvrs mapr))(dk \<mapsto> r)"
  by (simp add: setReceiver_def update_conv')

lemma setReceiver_isIsol: "isIsol (setReceiver mapr dk r) = isIsol mapr"
  by (simp add: setReceiver_def)

lemma lockKey_Ret:
  "lockKey mapr dk r = Some (Ret (b, m)) \<Longrightarrow>
     map_of (keyToRcvrs m) = (map_of (keyToRcvrs mapr))(dk \<mapsto> r) \<and> isIsol m = isIsol mapr"
  by (auto simp: lockKey_def Let_def setReceiver_map setReceiver_isIsol
           split: if_splits option.splits prod.splits result.splits)

lemma lockKey_isolated:
  "isIsol mapr \<Longrightarrow> lockKey mapr dk r = Some (Ret (True, setReceiver mapr dk r))"
  by (simp add: lockKey_def Let_def setReceiver_isIsol)

lemma divergent_tail:
  assumes d: "\<exists>k\<in>set (dk # ms). \<exists>x. f k = Some x \<and> x \<noteq> r"
    and n: "f dk = None" and g: "g = f(dk \<mapsto> r)"
  shows "\<exists>k\<in>set ms. \<exists>x. g k = Some x \<and> x \<noteq> r"
proof -
  from d obtain k x where k: "k \<in> set (dk # ms)" "f k = Some x" "x \<noteq> r" by blast
  with n have ne: "k \<noteq> dk" by auto
  with k have "k \<in> set ms" by simp
  moreover from ne g k have "g k = Some x" by simp
  ultimately show ?thesis using k(3) by blast
qed

lemma preserved_tail:
  assumes n: "f dk = None" and g: "g = f(dk \<mapsto> r)" and k: "f k = Some x"
  shows "g k = Some x"
proof -
  from n k have "k \<noteq> dk" by auto
  with g k show ?thesis by simp
qed

lemma syncLoop_bound:
  "syncLoop all r ms mapr = Some (Ret m) \<Longrightarrow>
     (\<forall>dk\<in>set ms. receiverByKey m dk = Some r) \<and>
     (\<forall>k x. receiverByKey mapr k = Some x \<longrightarrow> receiverByKey m k = Some x)"
proof (induction ms arbitrary: mapr)
  case Nil
  then show ?case by simp
next
  case (Cons dk ms)
  show ?case
  proof (cases "receiverByKey mapr dk")
    case None
    with Cons.prems obtain b m1 where lk: "lockKey mapr dk r = Some (Ret (b, m1))"
      and rest: "syncLoop all r ms m1 = Some (Ret m)"
      by (auto split: option.splits result.splits)
    from lockKey_Ret [OF lk]
    have m1: "receiverByKey m1 = (receiverByKey mapr)(dk \<mapsto> r)"
      by (auto simp: receiverByKey_def)
    from m1 have hd: "receiverByKey m1 dk = Some r" by simp
    from Cons.IH [OF rest]
    have tl: "\<forall>dk\<in>set ms. receiverByKey m dk = Some r"
      and pr: "\<forall>k x. receiverByKey m1 k = Some x \<longrightarrow> receiverByKey m k = Some x"
      by simp_all
    from pr hd have "receiverByKey m dk = Some r" by blast
    moreover have "receiverByKey m k = Some x" if "receiverByKey mapr k = Some x" for k x
      using pr preserved_tail [OF None m1 that] by blast
    ultimately show ?thesis using tl by (simp del: split_paired_All)
  next
    case (Some x)
    with Cons.prems have x: "x = r" and rest: "syncLoop all r ms mapr = Some (Ret m)"
      by (auto split: if_splits)
    from Cons.IH [OF rest]
    have tl: "\<forall>dk\<in>set ms. receiverByKey m dk = Some r"
      and pr: "\<forall>k x. receiverByKey mapr k = Some x \<longrightarrow> receiverByKey m k = Some x"
      by simp_all
    from pr Some x have "receiverByKey m dk = Some r" by blast
    with tl pr show ?thesis by (simp del: split_paired_All)
  qed
qed

lemma syncLoop_divergent:
  "\<exists>dk\<in>set ms. \<exists>x. receiverByKey mapr dk = Some x \<and> x \<noteq> r \<Longrightarrow>
     syncLoop all r ms mapr = None \<or> (\<exists>f. syncLoop all r ms mapr = Some (Fatal f))"
proof (induction ms arbitrary: mapr)
  case Nil
  then show ?case by simp
next
  case (Cons dk ms)
  show ?case
  proof (cases "receiverByKey mapr dk")
    case None
    show ?thesis
    proof (cases "lockKey mapr dk r")
      case lnone: None
      with None show ?thesis by simp
    next
      case (Some res)
      show ?thesis
      proof (cases res)
        case (Fatal f)
        with None Some show ?thesis by simp
      next
        case (Ret bm)
        obtain b m1 where bm: "bm = (b, m1)" by (cases bm)
        with Some Ret have lk: "lockKey mapr dk r = Some (Ret (b, m1))" by simp
        from lockKey_Ret [OF lk]
        have m1: "receiverByKey m1 = (receiverByKey mapr)(dk \<mapsto> r)"
          by (auto simp: receiverByKey_def)
        from Cons.prems None m1
        have "\<exists>dk\<in>set ms. \<exists>x. receiverByKey m1 dk = Some x \<and> x \<noteq> r"
          by (rule divergent_tail)
        from Cons.IH [OF this] None lk show ?thesis by simp
      qed
    qed
  next
    case (Some x)
    show ?thesis
    proof (cases "x = r")
      case True
      with Cons.prems Some have "\<exists>dk\<in>set ms. \<exists>x. receiverByKey mapr dk = Some x \<and> x \<noteq> r"
        by auto
      from Cons.IH [OF this] Some True show ?thesis by simp
    next
      case False
      with Some show ?thesis by simp
    qed
  qed
qed

lemma syncLoop_divergent_isolated:
  "isIsol mapr \<Longrightarrow> \<exists>dk\<in>set ms. \<exists>x. receiverByKey mapr dk = Some x \<and> x \<noteq> r \<Longrightarrow>
     \<exists>dk. syncLoop all r ms mapr = Some (Fatal (InconsistentShards dk all))"
proof (induction ms arbitrary: mapr)
  case Nil
  then show ?case by simp
next
  case (Cons dk ms)
  show ?case
  proof (cases "receiverByKey mapr dk")
    case None
    let ?m1 = "setReceiver mapr dk r"
    from Cons.prems(1) have lk: "lockKey mapr dk r = Some (Ret (True, ?m1))"
      by (rule lockKey_isolated)
    have m1: "receiverByKey ?m1 = (receiverByKey mapr)(dk \<mapsto> r)"
      by (auto simp: receiverByKey_def setReceiver_map)
    from Cons.prems(2) None m1
    have "\<exists>dk\<in>set ms. \<exists>x. receiverByKey ?m1 dk = Some x \<and> x \<noteq> r"
      by (rule divergent_tail)
    moreover from Cons.prems(1) have "isIsol ?m1" by (simp add: setReceiver_isIsol)
    ultimately have "\<exists>dk. syncLoop all r ms ?m1 = Some (Fatal (InconsistentShards dk all))"
      by (rule Cons.IH [rotated])
    with None lk show ?thesis by simp
  next
    case (Some x)
    show ?thesis
    proof (cases "x = r")
      case True
      with Cons.prems Some have "\<exists>dk\<in>set ms. \<exists>x. receiverByKey mapr dk = Some x \<and> x \<noteq> r"
        by auto
      from Cons.IH [OF Cons.prems(1) this] Some True show ?thesis by simp
    next
      case False
      with Some show ?thesis by simp
    qed
  qed
qed

lemma anyReceiver_Some:
  "anyReceiver mapr ms = Some r \<Longrightarrow> \<exists>dk\<in>set ms. receiverByKey mapr dk = Some r"
  by (induction ms) (auto split: option.splits)

lemma anyReceiver_None:
  "anyReceiver mapr ms = None \<Longrightarrow> \<forall>dk\<in>set ms. receiverByKey mapr dk = None"
  by (induction ms) (auto split: option.splits)

lemma bindAll_map:
  "receiverByKey (bindAll ms r mapr) dk
     = (if dk \<in> set ms then Some r else receiverByKey mapr dk)"
  by (induction ms arbitrary: mapr) (auto simp: receiverByKey_def setReceiver_map)

lemma bindAll_frame:
  "idToRcvrs (bindAll ms r mapr) = idToRcvrs mapr \<and> queues (bindAll ms r mapr) = queues mapr
   \<and> lastRId (bindAll ms r mapr) = lastRId mapr"
  by (induction ms arbitrary: mapr) (auto simp: setReceiver_def)

lemma newReceiverForMapSet_bound:
  "newReceiverForMapSet mapr ms = Some (Ret (r, m)) \<Longrightarrow> \<forall>dk\<in>set ms. receiverByKey m dk = Some r"
  by (auto simp: newReceiverForMapSet_def bindAll_map
           split: option.splits result.splits prod.splits)

lemma enqueMsg_last:
  "\<exists>q. queues (enqueMsg mapr r mh) (dataCh r) = Some (q @ [mh])"
  by (simp add: enqueMsg_def)

lemma enqueMsg_keys: "receiverByKey (enqueMsg mapr r mh) = receiverByKey mapr"
  by (simp add: enqueMsg_def receiverByKey_def fun_eq_iff)

lemma handleMsg_keyed_eq:
  assumes "\<not> isUnicast (mh_msg mh)" and "handler mh = Some h"
  shows "handleMsg mapr mh =
     (case anyReceiver mapr (h (mh_msg mh)) of
        None \<Rightarrow>
          (case newReceiverForMapSet mapr (h (mh_msg mh)) of
             None \<Rightarrow> None
           | Some (Fatal f) \<Rightarrow> Some (Fatal f)
           | Some (Ret (r, m)) \<Rightarrow> Some (Ret (enqueMsg m r mh)))
      | Some r \<Rightarrow>
          (case syncReceivers mapr (h (mh_msg mh)) r of
             None \<Rightarrow> None
           | Some (Fatal f) \<Rightarrow> Some (Fatal f)
           | Some (Ret m) \<Rightarrow> Some (Ret (enqueMsg m r mh))))"
  using assms by (simp add: handleMsg_def Let_def)

lemma handleMsg_keyed_coherent:
  assumes nu: "\<not> isUnicast (mh_msg mh)" and h: "handler mh = Some h"
    and fin: "handleMsg mapr mh = Some (Ret m)"
  shows "\<exists>r q. (\<forall>dk\<in>set (h (mh_msg mh)). receiverByKey m dk = Some r)
               \<and> queues m (dataCh r) = Some (q @ [mh])"
proof (cases "anyReceiver mapr (h (mh_msg mh))")
  case None
  with fin handleMsg_keyed_eq [OF nu h, of mapr] obtain r m1
    where nr: "newReceiverForMapSet mapr (h (mh_msg mh)) = Some (Ret (r, m1))"
      and m: "m = enqueMsg m1 r mh"
    by (auto split: option.splits result.splits)
  from newReceiverForMapSet_bound [OF nr] m
  have "\<forall>dk\<in>set (h (mh_msg mh)). receiverByKey m dk = Some r"
    by (simp add: enqueMsg_keys)
  with enqueMsg_last [of m1 r mh] m show ?thesis by blast
next
  case (Some r)
  with fin handleMsg_keyed_eq [OF nu h, of mapr] obtain m1
    where sr: "syncLoop (h (mh_msg mh)) r (h (mh_msg mh)) mapr = Some (Ret m1)"
      and m: "m = enqueMsg m1 r mh"
    by (auto simp: syncReceivers_def split: option.splits result.splits)
  from syncLoop_bound [OF sr] m
  have "\<forall>dk\<in>set (h (mh_msg mh)). receiverByKey m dk = Some r"
    by (simp add: enqueMsg_keys)
  with enqueMsg_last [of m1 r mh] m show ?thesis by blast
qed

lemma handleMsg_keyed_divergent:
  assumes nu: "\<not> isUnicast (mh_msg mh)" and h: "handler mh = Some h"
    and k1: "dk1 \<in> set (h (mh_msg mh))" "receiverByKey mapr dk1 = Some r1"
    and k2: "dk2 \<in> set (h (mh_msg mh))" "receiverByKey mapr dk2 = Some r2"
    and ne: "r1 \<noteq> r2"
  shows "(handleMsg mapr mh = None \<or> (\<exists>f. handleMsg mapr mh = Some (Fatal f)))
       \<and> (isIsol mapr \<longrightarrow>
            (\<exists>dk. handleMsg mapr mh = Some (Fatal (InconsistentShards dk (h (mh_msg mh))))))"
proof -
  let ?M = "h (mh_msg mh)"
  from k1 anyReceiver_None [of mapr ?M] obtain r where ar: "anyReceiver mapr ?M = Some r"
    by (cases "anyReceiver mapr ?M") auto
  from k1 k2 ne have dv: "\<exists>dk\<in>set ?M. \<exists>x. receiverByKey mapr dk = Some x \<and> x \<noteq> r"
    by (cases "r1 = r") auto
  have eq: "handleMsg mapr mh =
      (case syncLoop ?M r ?M mapr of
         None \<Rightarrow> None
       | Some (Fatal f) \<Rightarrow> Some (Fatal f)
       | Some (Ret m) \<Rightarrow> Some (Ret (enqueMsg m r mh)))"
    by (simp add: handleMsg_keyed_eq [OF nu h] ar syncReceivers_def)
  from syncLoop_divergent [OF dv, of ?M]
  have a: "handleMsg mapr mh = None \<or> (\<exists>f. handleMsg mapr mh = Some (Fatal f))"
    by (auto simp: eq)
  have b: "\<exists>dk. handleMsg mapr mh = Some (Fatal (InconsistentShards dk ?M))" if "isIsol mapr"
    using syncLoop_divergent_isolated [OF that dv, of ?M] by (auto simp: eq)
  from a b show ?thesis by blast
qed

text \<open>
  C3 (amended). For a keyed message whose handler returns \<open>M\<close>: when \<open>handleMsg\<close> completes,
  all keys of \<open>M\<close> are bound to one receiver and the message is the last of that receiver's
  data queue. If two keys of \<open>M\<close> were bound to two distinct receivers, \<open>handleMsg\<close> does not
  complete: it is fatal, or a registry call of \<open>lockKey\<close> for an unbound key never returns;
  on an isolated stage it is the fatal of \<open>syncReceivers\<close>.
\<close>

theorem handleMsg_keyed:
  assumes nu: "\<not> isUnicast (mh_msg mh)" and h: "handler mh = Some h"
  shows "(\<forall>m. handleMsg mapr mh = Some (Ret m) \<longrightarrow>
            (\<exists>r q. (\<forall>dk\<in>set (h (mh_msg mh)). receiverByKey m dk = Some r)
                  \<and> queues m (dataCh r) = Some (q @ [mh])))
       \<and> ((\<exists>dk1\<in>set (h (mh_msg mh)). \<exists>dk2\<in>set (h (mh_msg mh)). \<exists>r1 r2.
              receiverByKey mapr dk1 = Some r1 \<and> receiverByKey mapr dk2 = Some r2 \<and> r1 \<noteq> r2)
           \<longrightarrow> (handleMsg mapr mh = None \<or> (\<exists>f. handleMsg mapr mh = Some (Fatal f)))
               \<and> (isIsol mapr \<longrightarrow>
                    (\<exists>dk. handleMsg mapr mh = Some (Fatal (InconsistentShards dk (h (mh_msg mh)))))))"
  using handleMsg_keyed_coherent [OF nu h] handleMsg_keyed_divergent [OF nu h]
  by blast

lemmas mapr_defs = handleMsg_def syncReceivers_def receiverByKey_def
  lockKey_def setReceiver_def enqueMsg_def

lemmas mapr_ex_defs = mapr_iso_def mapr_blocked_def mh_abc_def mh_ab_def keyed_def map_abc_def
  map_ab_def rcvrA_def rcvrB_def ridA_def ridB_def

text \<open>
  C3, as stated, fails on a stage that is not isolated: \<open>(d, b)\<close> and \<open>(d, c)\<close> are bound to
  two distinct receivers, \<open>(d, a)\<close> is unbound and comes first, the actor's lock is held by
  another owner and no change of it is ever seen. \<open>handleMsg\<close> waits in \<open>lockActor\<close> and is
  not fatal.
\<close>

theorem handleMsg_divergent_blocked:
  "receiverByKey mapr_blocked (''d'', ''b'') = Some rcvrA
   \<and> receiverByKey mapr_blocked (''d'', ''c'') = Some rcvrB
   \<and> rcvrA \<noteq> rcvrB
   \<and> handleMsg mapr_blocked mh_abc = None"
  by (simp add: mapr_defs mapr_ex_defs reg_defs ex_defs)

lemma word32_succ:
  fixes x :: "32 word"
  assumes "x \<noteq> - 1"
  shows "unat (x + 1) = unat x + 1"
proof -
  from assms have "1 + x \<noteq> 0"
    by (metis add_eq_0_iff)
  from unatSuc [OF this] show ?thesis by (simp add: add.commute)
qed

lemma nextRcvrId_eq:
  "nextRcvrId mapr =
     (\<lparr>StageId = stageId mapr, ActorName = actorName mapr, RcvrId = lastRId mapr + 1\<rparr>,
      mapr\<lparr>lastRId := lastRId mapr + 1\<rparr>)"
  by (simp add: nextRcvrId_def Let_def)

text \<open>
  C4 (amended). On an isolated stage \<open>lock\<close> returns the fresh local ID and \<open>lastRId\<close> is
  incremented; so it is when the registry returns the RegVal of the fresh ID. When the
  registry returns another RegVal, \<open>lastRId\<close> is what it was before the call and the ID
  returned carries the StageId and RcvrId of that RegVal. The increment is the one of
  \<open>uint32\<close>: it makes \<open>lastRId\<close> one larger unless \<open>lastRId\<close> was \<open>2^32 - 1\<close>.
\<close>

theorem lock_counter:
  "(isIsol mapr \<longrightarrow>
      lock mapr ms force
        = Some (Ret (\<lparr>StageId = stageId mapr, ActorName = actorName mapr, RcvrId = lastRId mapr + 1\<rparr>,
                     mapr\<lparr>lastRId := lastRId mapr + 1\<rparr>)))
   \<and> (\<not> isIsol mapr \<and>
       registryClaim (mapr\<lparr>lastRId := lastRId mapr + 1\<rparr>)
         \<lparr>StageId = stageId mapr, ActorName = actorName mapr, RcvrId = lastRId mapr + 1\<rparr> ms force
         = Some (Ret v, w)
      \<longrightarrow> (rv_StageId v = stageId mapr \<and> rv_RcvrId v = lastRId mapr + 1 \<longrightarrow>
             lock mapr ms force
               = Some (Ret (\<lparr>StageId = stageId mapr, ActorName = actorName mapr, RcvrId = lastRId mapr + 1\<rparr>,
                            mapr\<lparr>lastRId := lastRId mapr + 1, cluster := w\<rparr>)))
        \<and> (\<not> (rv_StageId v = stageId mapr \<and> rv_RcvrId v = lastRId mapr + 1) \<longrightarrow>
             lock mapr ms force
               = Some (Ret (\<lparr>StageId = rv_StageId v, ActorName = actorName mapr, RcvrId = rv_RcvrId v\<rparr>,
                            mapr\<lparr>lastRId := lastRId mapr, cluster := w\<rparr>))))
   \<and> (lastRId mapr \<noteq> - 1 \<longrightarrow> unat (lastRId mapr + 1) = unat (lastRId mapr) + 1)"
  by (auto simp: lock_def nextRcvrId_eq Let_def word32_succ)

text \<open>
  C4, as stated, fails at \<open>lastRId = 2^32 - 1\<close>: after \<open>lock\<close> on an isolated stage \<open>lastRId\<close>
  is 0, not one larger, and the ID returned has the number of the detached receiver.
\<close>

theorem lock_counter_wraps:
  "unat (lastRId mapr_full) = 4294967295
   \<and> map_option (unat \<circ> lastRId \<circ> snd) (returned (lock mapr_full [] False)) = Some 0
   \<and> map_option (RcvrId \<circ> fst) (returned (lock mapr_full [] False)) = Some detachedRcvrId"
  by (simp add: lock_def nextRcvrId_eq mapr_full_def mapr_iso_def returned_def detachedRcvrId_def)

text \<open>
  C3 (amended) on the isolated stage: the message with keys \<open>(d, a)\<close>, \<open>(d, b)\<close> is
  enqueued on the receiver of \<open>(d, b)\<close>, which \<open>(d, a)\<close> is bound to; the message with keys
  \<open>(d, a)\<close>, \<open>(d, b)\<close>, \<open>(d, c)\<close> is fatal.
\<close>

theorem handleMsg_keyed_witness:
  "\<not> isUnicast (mh_msg mh_ab) \<and> handler mh_ab = Some map_ab
   \<and> \<not> isUnicast (mh_msg mh_abc) \<and> handler mh_abc = Some map_abc
   \<and> map_option (\<lambda>m. (receiverByKey m (''d'', ''a''), receiverByKey m (''d'', ''b''), queues m 0))
         (returned (handleMsg mapr_iso mh_ab))
       = Some (Some rcvrA, Some rcvrA, Some [mh_ab])
   \<and> receiverByKey mapr_iso (''d'', ''b'') = Some rcvrA
   \<and> receiverByKey mapr_iso (''d'', ''c'') = Some rcvrB
   \<and> rcvrA \<noteq> rcvrB
   \<and> isIsol mapr_iso
   \<and> (\<exists>dk. handleMsg mapr_iso mh_abc = Some (Fatal (InconsistentShards dk (map_abc keyed))))"
proof -
  have h1: "\<not> isUnicast (mh_msg mh_ab)" "handler mh_ab = Some map_ab"
    and h2: "\<not> isUnicast (mh_msg mh_abc)" "handler mh_abc = Some map_abc"
    by (simp_all add: mh_ab_def mh_abc_def keyed_def)
  have ev: "map_option (\<lambda>m. (receiverByKey m (''d'', ''a''), receiverByKey m (''d'', ''b''), queues m 0))
         (returned (handleMsg mapr_iso mh_ab))
       = Some (Some rcvrA, Some rcvrA, Some [mh_ab])"
    by (simp add: mapr_defs mapr_ex_defs returned_def)
  have b: "receiverByKey mapr_iso (''d'', ''b'') = Some rcvrA"
    and c: "receiverByKey mapr_iso (''d'', ''c'') = Some rcvrB"
    and ne: "rcvrA \<noteq> rcvrB" and iso: "isIsol mapr_iso"
    by (simp_all add: receiverByKey_def mapr_ex_defs)
  have mem: "(''d'', ''b'') \<in> set (map_abc (mh_msg mh_abc))" "(''d'', ''c'') \<in> set (map_abc (mh_msg mh_abc))"
    by (simp_all add: map_abc_def)
  from handleMsg_keyed [OF h2, of mapr_iso, THEN conjunct2] mem b c ne iso
  have "\<exists>dk. handleMsg mapr_iso mh_abc = Some (Fatal (InconsistentShards dk (map_abc (mh_msg mh_abc))))"
    by blast
  then have "\<exists>dk. handleMsg mapr_iso mh_abc = Some (Fatal (InconsistentShards dk (map_abc keyed)))"
    by (simp add: mh_abc_def)
  with h1 h2 ev b c ne iso show ?thesis by blast
qed

text \<open>
  C4 (amended) on a stage whose registry holds \<open>(d, a)\<close> for the owner (2, 7): the
  tentative ID 3 is given up, \<open>lastRId\<close> stays 2, and the ID returned is (2, X, 7).
\<close>

theorem lock_counter_witness:
  "\<not> isIsol mapr_remote
   \<and> map_option fst (registryClaim (mapr_remote\<lparr>lastRId := lastRId mapr_remote + 1\<rparr>) rid3
                       [(''d'', ''a'')] False) = Some (Ret owner2)
   \<and> lastRId mapr_remote = 2
   \<and> map_option (\<lambda>(rid, m). (rid, lastRId m)) (returned (lock mapr_remote [(''d'', ''a'')] False))
       = Some (\<lparr>StageId = 2, ActorName = ''X'', RcvrId = 7\<rparr>, 2)"
proof -
  let ?m1 = "mapr_remote\<lparr>lastRId := lastRId mapr_remote + 1\<rparr>"
  have ni: "\<not> isIsol mapr_remote" and l: "lastRId mapr_remote = 2"
    and sid: "stageId mapr_remote = 1" and an: "actorName mapr_remote = ''X''"
    by (simp_all add: mapr_remote_def mapr_iso_def)
  have rc: "map_option fst (registryClaim ?m1 rid3 [(''d'', ''a'')] False) = Some (Ret owner2)"
    by (simp add: registryClaim_def mapr_remote_def mapr_iso_def rid3_def reg_defs ex_defs)
  then obtain w where w: "registryClaim ?m1 rid3 [(''d'', ''a'')] False = Some (Ret owner2, w)"
    by auto
  have r3: "rid3 = \<lparr>StageId = stageId mapr_remote, ActorName = actorName mapr_remote,
                     RcvrId = lastRId mapr_remote + 1\<rparr>"
    by (simp add: rid3_def sid an l)
  have foreign: "\<not> (rv_StageId owner2 = stageId mapr_remote \<and> rv_RcvrId owner2 = lastRId mapr_remote + 1)"
    by (simp add: owner2_def sid)
  from lock_counter [of mapr_remote "[(''d'', ''a'')]" False owner2 w, THEN conjunct2, THEN conjunct1]
    ni w r3 foreign
  have "lock mapr_remote [(''d'', ''a'')] False
      = Some (Ret (\<lparr>StageId = rv_StageId owner2, ActorName = actorName mapr_remote, RcvrId = rv_RcvrId owner2\<rparr>,
                   mapr_remote\<lparr>lastRId := lastRId mapr_remote, cluster := w\<rparr>))"
    by simp
  then have "map_option (\<lambda>(rid, m). (rid, lastRId m)) (returned (lock mapr_remote [(''d'', ''a'')] False))
       = Some (\<lparr>StageId = 2, ActorName = ''X'', RcvrId = 7\<rparr>, 2)"
    by (simp add: returned_def owner2_def an l)
  with ni rc l show ?thesis by simp
qed

lemma proxyFromLocal_Inr:
  assumes "\<not> isLocalRcvr mapr new" and "receiverById mapr new = None"
  shows "proxyFromLocal mapr new old
     = Inr (old\<lparr>ref := nrefs mapr, kind := ProxyRcvr, rId := new\<rparr>,
            mapr\<lparr>idToRcvrs := (idToRcvrs mapr)
                     (new \<mapsto> old\<lparr>ref := nrefs mapr, kind := ProxyRcvr, rId := new\<rparr>,
                      rId old \<mapsto> old\<lparr>ref := nrefs mapr, kind := ProxyRcvr, rId := new\<rparr>),
                  nrefs := nrefs mapr + 1\<rparr>)"
  using assms by (simp add: proxyFromLocal_def Let_def)

lemma proxyFromLocal_cases:
  "proxyFromLocal mapr new old = Inr (p, m) \<Longrightarrow>
     \<not> isLocalRcvr mapr new \<and> receiverById mapr new = None"
  by (auto simp: proxyFromLocal_def Let_def split: if_splits option.splits)

lemma mapSetOfRcvr_mem:
  "map_of (keyToRcvrs mapr) dk = Some r \<Longrightarrow> rId r = i \<Longrightarrow> dk \<in> set (mapSetOfRcvr mapr i)"
  by (force simp: mapSetOfRcvr_def dest: map_of_SomeD)

lemma migrate_completes:
  assumes nd: "\<not> isDetachedId rcvrId"
    and old: "receiverById mapr rcvrId = Some old" "kind old = LocalRcvr"
    and env: "stopAck env = None" "dial env = None" "encHandshake env = None"
      "encCommand env = None" "decoded env = Inr new"
    and new: "\<not> isLocalRcvr mapr new" "receiverById mapr new = None"
  shows "\<exists>m p. migrate mapr rcvrId to env = Ret ([], m)
           \<and> kind p = ProxyRcvr \<and> rId p = new
           \<and> receiverById m new = Some p \<and> receiverById m (rId old) = Some p
           \<and> (\<forall>dk r. receiverByKey mapr dk = Some r \<and> rId r = rId old
                 \<longrightarrow> receiverByKey m dk = Some p)"
proof -
  let ?p = "old\<lparr>ref := nrefs mapr, kind := ProxyRcvr, rId := new\<rparr>"
  let ?m1 = "mapr\<lparr>idToRcvrs := (idToRcvrs mapr)(new \<mapsto> ?p, rId old \<mapsto> ?p),
                  nrefs := nrefs mapr + 1\<rparr>"
  let ?ms = "mapSetOfRcvr ?m1 (rId old)"
  let ?m2 = "?m1\<lparr>cluster := snd (registery_set (reg ?m1) (rId ?p) ?ms (cluster ?m1))\<rparr>"
  let ?m = "bindAll ?ms ?p ?m2"
  have mg: "migrate mapr rcvrId to env = Ret ([], ?m)"
    using nd old env by (simp add: migrate_def proxyFromLocal_Inr [OF new] Let_def)
  have ids: "receiverById ?m new = Some ?p" "receiverById ?m (rId old) = Some ?p"
    by (simp_all add: receiverById_def bindAll_frame)
  have keys: "receiverByKey ?m dk = Some ?p"
    if "receiverByKey mapr dk = Some r" "rId r = rId old" for dk r
  proof -
    from that have "dk \<in> set ?ms"
      by (intro mapSetOfRcvr_mem [where r = r]) (simp_all add: receiverByKey_def)
    then show ?thesis by (simp add: bindAll_map)
  qed
  from mg ids keys show ?thesis
    by (intro exI [of _ ?m] exI [of _ ?p]) (simp del: split_paired_All)
qed

text \<open>
  C5. \<open>migrate\<close> of the detached ID sends the error and leaves the mapper as it is. A
  migration of a local receiver in which every step succeeds installs one proxy under the
  new remote ID and under the old receiver's ID (the ID it was asked for, when the
  receiver is registered under its own ID), and binds to that proxy every key that was
  bound to a receiver with the old ID.
\<close>

theorem migrate_installs_proxy:
  "(isDetachedId rcvrId \<longrightarrow>
      migrate mapr rcvrId to env = Ret ([errResult (DetachedMigrate rcvrId)], mapr))
   \<and> (\<not> isDetachedId rcvrId \<and> receiverById mapr rcvrId = Some old \<and> kind old = LocalRcvr
       \<and> stopAck env = None \<and> dial env = None \<and> encHandshake env = None
       \<and> encCommand env = None \<and> decoded env = Inr new
       \<and> \<not> isLocalRcvr mapr new \<and> receiverById mapr new = None
      \<longrightarrow> (\<exists>m p. migrate mapr rcvrId to env = Ret ([], m)
             \<and> kind p = ProxyRcvr \<and> rId p = new
             \<and> receiverById m new = Some p \<and> receiverById m (rId old) = Some p
             \<and> (rId old = rcvrId \<longrightarrow> receiverById m rcvrId = Some p)
             \<and> (\<forall>dk r. receiverByKey mapr dk = Some r \<and> rId r = rId old
                   \<longrightarrow> receiverByKey m dk = Some p)))"
proof (intro conjI impI)
  assume "isDetachedId rcvrId"
  then show "migrate mapr rcvrId to env = Ret ([errResult (DetachedMigrate rcvrId)], mapr)"
    by (simp add: migrate_def)
next
  assume a: "\<not> isDetachedId rcvrId \<and> receiverById mapr rcvrId = Some old \<and> kind old = LocalRcvr
       \<and> stopAck env = None \<and> dial env = None \<and> encHandshake env = None
       \<and> encCommand env = None \<and> decoded env = Inr new
       \<and> \<not> isLocalRcvr mapr new \<and> receiverById mapr new = None"
  then have "\<exists>m p. migrate mapr rcvrId to env = Ret ([], m)
           \<and> kind p = ProxyRcvr \<and> rId p = new
           \<and> receiverById m new = Some p \<and> receiverById m (rId old) = Some p
           \<and> (\<forall>dk r. receiverByKey mapr dk = Some r \<and> rId r = rId old
                 \<longrightarrow> receiverByKey m dk = Some p)"
    by (intro migrate_completes) simp_all
  then show "\<exists>m p. migrate mapr rcvrId to env = Ret ([], m)
             \<and> kind p = ProxyRcvr \<and> rId p = new
             \<and> receiverById m new = Some p \<and> receiverById m (rId old) = Some p
             \<and> (rId old = rcvrId \<longrightarrow> receiverById m rcvrId = Some p)
             \<and> (\<forall>dk r. receiverByKey mapr dk = Some r \<and> rId r = rId old
                   \<longrightarrow> receiverByKey m dk = Some p)"
    by (elim exE conjE, intro exI conjI impI) (simp_all del: split_paired_All)
qed


lemmas migr_ex_defs = all_ok_def dial_fails_def ridRemote_def proxyA_def ridDetached_def

text \<open>
  C5 on the isolated stage: the detached ID is rejected; receiver 1 is migrated to stage
  2, where it becomes (2, X, 5).
\<close>

theorem migrate_installs_proxy_witness:
  "isDetachedId ridDetached
   \<and> migrate mapr_iso ridDetached 2 all_ok = Ret ([errResult (DetachedMigrate ridDetached)], mapr_iso)
   \<and> \<not> isDetachedId ridA \<and> receiverById mapr_iso ridA = Some rcvrA \<and> kind rcvrA = LocalRcvr
   \<and> rId rcvrA = ridA
   \<and> stopAck all_ok = None \<and> dial all_ok = None \<and> encHandshake all_ok = None
   \<and> encCommand all_ok = None \<and> decoded all_ok = Inr ridRemote
   \<and> \<not> isLocalRcvr mapr_iso ridRemote \<and> receiverById mapr_iso ridRemote = None
   \<and> receiverByKey mapr_iso (''d'', ''b'') = Some rcvrA
   \<and> (\<exists>m. migrate mapr_iso ridA 2 all_ok = Ret ([], m)
          \<and> receiverById m ridRemote = Some proxyA \<and> receiverById m ridA = Some proxyA
          \<and> receiverByKey m (''d'', ''b'') = Some proxyA
          \<and> receiverByKey m (''d'', ''c'') = Some rcvrB)"
proof -
  have det: "isDetachedId ridDetached"
    by (simp add: isDetachedId_def detachedRcvrId_def ridDetached_def)
  from migrate_installs_proxy [of ridDetached mapr_iso 2 all_ok, THEN conjunct1] det
  have d: "migrate mapr_iso ridDetached 2 all_ok = Ret ([errResult (DetachedMigrate ridDetached)], mapr_iso)"
    by simp
  have hyp: "\<not> isDetachedId ridA" "receiverById mapr_iso ridA = Some rcvrA" "kind rcvrA = LocalRcvr"
    "rId rcvrA = ridA"
    "stopAck all_ok = None" "dial all_ok = None" "encHandshake all_ok = None"
    "encCommand all_ok = None" "decoded all_ok = Inr ridRemote"
    "\<not> isLocalRcvr mapr_iso ridRemote" "receiverById mapr_iso ridRemote = None"
    "receiverByKey mapr_iso (''d'', ''b'') = Some rcvrA"
    by (simp_all add: isDetachedId_def detachedRcvrId_def receiverById_def receiverByKey_def
          isLocalRcvr_def mapr_ex_defs migr_ex_defs)
  from migrate_installs_proxy [of ridA mapr_iso 2 all_ok rcvrA ridRemote, THEN conjunct2] hyp
  obtain m p where m: "migrate mapr_iso ridA 2 all_ok = Ret ([], m)"
    and p: "kind p = ProxyRcvr" "rId p = ridRemote"
      "receiverById m ridRemote = Some p" "receiverById m ridA = Some p"
    and k: "\<forall>dk r. receiverByKey mapr_iso dk = Some r \<and> rId r = rId rcvrA \<longrightarrow> receiverByKey m dk = Some p"
    by auto
  from k hyp(12) have kb: "receiverByKey m (''d'', ''b'') = Some p" by blast
  have ev: "migrate mapr_iso ridA 2 all_ok
      = Ret ([], bindAll [(''d'', ''b'')] proxyA
                  (mapr_iso\<lparr>idToRcvrs := (idToRcvrs mapr_iso)(ridRemote \<mapsto> proxyA, ridA \<mapsto> proxyA),
                            nrefs := 3,
                            cluster := snd (registery_set g0 ridRemote [(''d'', ''b'')] (quiet Map.empty))\<rparr>))"
    by (simp add: migrate_def proxyFromLocal_def mapSetOfRcvr_def receiverById_def isLocalRcvr_def
          isDetachedId_def detachedRcvrId_def Let_def mapr_ex_defs migr_ex_defs)
  from m ev have mm: "m = bindAll [(''d'', ''b'')] proxyA
                  (mapr_iso\<lparr>idToRcvrs := (idToRcvrs mapr_iso)(ridRemote \<mapsto> proxyA, ridA \<mapsto> proxyA),
                            nrefs := 3,
                            cluster := snd (registery_set g0 ridRemote [(''d'', ''b'')] (quiet Map.empty))\<rparr>)"
    by simp
  then have pa: "receiverById m ridRemote = Some proxyA"
    and kc: "receiverByKey m (''d'', ''c'') = Some rcvrB"
    by (simp_all add: receiverById_def receiverByKey_def setReceiver_def mapr_iso_def)
  with p have "p = proxyA" by simp
  with m p kb kc have "\<exists>m. migrate mapr_iso ridA 2 all_ok = Ret ([], m)
          \<and> receiverById m ridRemote = Some proxyA \<and> receiverById m ridA = Some proxyA
          \<and> receiverByKey m (''d'', ''b'') = Some proxyA
          \<and> receiverByKey m (''d'', ''c'') = Some rcvrB"
    by blast
  with det d hyp show ?thesis by blast
qed


end
